theory Spec2Isabelle
  imports Main "HOL-Library.Sublist" "HOL-Library.AList"
begin

section \<open>The world a build runs in\<close>

text \<open>
  \<^verbatim>\<open>latexbuild/build.py\<close> drives an external typesetting program over files. The model
  passes an explicit world through every operation:
  \<^item> the file system is a table from path strings to file contents (an association list,
    read with \<open>map_of\<close>); directories are implicit, a path lies in a directory when it is
    \<open>os.path.join\<close> of the directory and a name; two spellings of one location are two
    paths; permissions are not modelled, so a write never fails;
  \<^item> \<open>calls\<close> records every call of the subprocess primitive, in order;
  \<^item> \<open>logged\<close> records what is sent to \<open>LOGGER\<close>;
  \<^item> \<open>rand_pos\<close> counts the random characters consumed so far.
  An exception is a value of \<open>exn\<close>; a function that may raise returns \<open>exn + 'a\<close>
  together with the world it leaves behind. A call that never returns has the value
  \<open>None\<close>.
\<close>

type_synonym path = string

type_synonym filesystem = "(path \<times> string) list"

datatype exn =
    TemplateError
  | IndexError
  | CompilerInvocationError
  | FileNotFoundError path
  | ValueError

datatype log_record =
    DEBUG string
  | INFO string
  | EXCEPTION string exn

datatype proc_outcome =
    Exited int "string list"
  | NotLaunched

record 'x world =
  files :: filesystem
  toolchain :: 'x
  calls :: "(string list \<times> path) list"
  logged :: "log_record list"
  rand_pos :: nat

text \<open>
  What lies outside the repository: the Jinja2 renderer, the program a command line
  starts (it sees the command, the working directory, the files and its own state, and
  leaves an exit status, its output lines, new files and a new state), and the source of
  random characters.
\<close>

record ('k, 'f, 'x) env =
  renderer :: "path \<Rightarrow> string \<Rightarrow> 'k option \<Rightarrow> 'f option \<Rightarrow> exn + string"
  program :: "string list \<Rightarrow> path \<Rightarrow> filesystem \<Rightarrow> 'x \<Rightarrow> proc_outcome \<times> filesystem \<times> 'x"
  rand_char :: "nat \<Rightarrow> char"

text \<open>
  The attributes of class \<open>LatexBuild\<close>, as \<open>__init__\<close> sets them; it sets \<open>path_template\<close>
  to \<open>os.path.join(path_jinja2, template_name)\<close>. The theorems hold for any values of the
  attributes.
\<close>

record ('k, 'f) LatexBuild =
  path_jinja2 :: path
  template_name :: string
  template_kwargs :: "'k option"
  path_template :: path
  filters :: "'f option"
  cmd_latex :: string

section \<open>Python's path functions\<close>

text \<open>\<open>str.rfind\<close>: the last index of a character, \<open>-1\<close> when it does not occur.\<close>

definition rfind :: "char \<Rightarrow> string \<Rightarrow> int" where
  "rfind c s =
     (case filter (\<lambda>i. s ! i = c) (rev [0..<length s]) of
        [] \<Rightarrow> - 1
      | i # _ \<Rightarrow> int i)"

definition rstrip_sep :: "string \<Rightarrow> string" where
  "rstrip_sep s = rev (dropWhile (\<lambda>c. c = CHR ''/'') (rev s))"

text \<open>\<open>posixpath.dirname\<close>.\<close>

definition dirname :: "path \<Rightarrow> path" where
  "dirname p =
     (let i = nat (rfind CHR ''/'' p + 1);
          head = take i p
      in if head \<noteq> [] \<and> head \<noteq> replicate (length head) CHR ''/''
         then rstrip_sep head else head)"

text \<open>
  \<open>posixpath.splitext\<close>: the extension starts at the last dot of the last component,
  unless only dots precede it there.
\<close>

definition splitext :: "path \<Rightarrow> path \<times> string" where
  "splitext p =
     (let sepIndex = rfind CHR ''/'' p;
          dotIndex = rfind CHR ''.'' p
      in if dotIndex > sepIndex \<and>
            list_ex (\<lambda>i. p ! i \<noteq> CHR ''.'') [nat (sepIndex + 1)..<nat dotIndex]
         then (take (nat dotIndex) p, drop (nat dotIndex) p)
         else (p, []))"

text \<open>\<open>posixpath.join\<close> of two components.\<close>

definition join :: "path \<Rightarrow> path \<Rightarrow> path" where
  "join a b =
     (if b \<noteq> [] \<and> hd b = CHR ''/'' then b
      else if a = [] \<or> last a = CHR ''/'' then a @ b
      else a @ ''/'' @ b)"

text \<open>\<open>"\n".join(lines)\<close>.\<close>

fun join_lines :: "string list \<Rightarrow> string" where
  "join_lines [] = []"
| "join_lines [l] = l"
| "join_lines (l # ls) = l @ [CHR 0x0A] @ join_lines ls"

section \<open>Files\<close>

text \<open>\<open>open(p, "w")\<close> followed by \<open>write(text)\<close>: the file holds exactly the text.\<close>

definition write_file :: "path \<Rightarrow> string \<Rightarrow> 'x world \<Rightarrow> 'x world" where
  "write_file p text w = w\<lparr>files := AList.update p text (files w)\<rparr>"

text \<open>
  \<open>shutil.move(src, dst)\<close> for a file: the source must exist; afterwards the
  destination holds its content and the source is gone.
\<close>

definition shutil_move :: "path \<Rightarrow> path \<Rightarrow> 'x world \<Rightarrow> (exn + unit) \<times> 'x world" where
  "shutil_move src dst w =
     (case map_of (files w) src of
        None \<Rightarrow> (Inl (FileNotFoundError src), w)
      | Some content \<Rightarrow>
          (Inr (), w\<lparr>files := AList.update dst content (AList.delete src (files w))\<rparr>))"

text \<open>\<open>os.remove(p)\<close>.\<close>

definition os_remove :: "path \<Rightarrow> 'x world \<Rightarrow> (exn + unit) \<times> 'x world" where
  "os_remove p w =
     (case map_of (files w) p of
        None \<Rightarrow> (Inl (FileNotFoundError p), w)
      | Some _ \<Rightarrow> (Inr (), w\<lparr>files := AList.delete p (files w)\<rparr>))"

text \<open>
  A path lies in a directory when it is \<open>os.path.join\<close> of the directory and a name:
  the directory, a separator unless the directory already ends with one, and a
  non-empty name without a separator.
\<close>

definition in_directory :: "path \<Rightarrow> path \<Rightarrow> bool" where
  "in_directory d p =
     (let pre = (if d = [] \<or> last d = CHR ''/'' then d else d @ ''/'');
          name = drop (length pre) p
      in prefix pre p \<and> name \<noteq> [] \<and> CHR ''/'' \<notin> set name)"

section \<open>The helpers of the repository that \<open>build.py\<close> imports\<close>

text \<open>
  Modelled from the spec: \<open>utils.random_str_uuid\<close> is not among the sources. The
  spec asks for "a random string of a requested length"; the characters come from the
  environment's random source, each one used once.
\<close>

definition random_str_uuid :: "('k, 'f, 'x) env \<Rightarrow> nat \<Rightarrow> 'x world \<Rightarrow> string \<times> 'x world" where
  "random_str_uuid E n w =
     (map (rand_char E) [rand_pos w..<rand_pos w + n], w\<lparr>rand_pos := rand_pos w + n\<rparr>)"

text \<open>
  The spec does not give the length of the random token of a temporary file name; five
  characters are taken here.
\<close>

definition length_random :: nat where
  "length_random = 5"

text \<open>
  Modelled from the spec: \<open>utils.random_name_filepath\<close> is not among the sources. The
  spec asks for "a randomized filename derived from a given path (same directory, same
  extension, new unique stem)": the random token goes between stem and extension.
\<close>

definition random_name_filepath :: "('k, 'f, 'x) env \<Rightarrow> path \<Rightarrow> 'x world \<Rightarrow> path \<times> 'x world" where
  "random_name_filepath E path_full w =
     (case splitext path_full of
        (path_full_pre, path_full_ext) \<Rightarrow>
          (case random_str_uuid E length_random w of
             (random_str, w') \<Rightarrow> (path_full_pre @ random_str @ path_full_ext, w')))"

text \<open>
  Modelled from the spec: \<open>utils.read_file\<close> is not among the sources. The spec asks
  to "read a file's full content as text, tolerating absence by signaling clearly", with
  "file does not exist" a value distinct from every content: \<open>None\<close> here.
\<close>

definition read_file :: "path \<Rightarrow> 'x world \<Rightarrow> string option" where
  "read_file p w = map_of (files w) p"

text \<open>
  Modelled from the spec: \<open>utils.list_filepathes_with_predicate\<close> is not among the
  sources. The spec asks to "list files in a directory whose name matches a given
  prefix"; \<open>run_latex\<close> passes a path stem as the prefix, so the listed paths are the
  joined paths of the directory's files that start with it, each once.
\<close>

definition list_filepathes_with_predicate :: "path \<Rightarrow> string \<Rightarrow> 'x world \<Rightarrow> path list" where
  "list_filepathes_with_predicate path_dir predicate w =
     remdups (filter (\<lambda>p. in_directory path_dir p \<and> prefix predicate p) (map fst (files w)))"

text \<open>
  Modelled from the spec: \<open>subprocess_extension.check_output_cwd\<close> is not among the
  sources. The spec asks to run the command synchronously in the working directory and
  return its output lines, failing with a CompilerInvocationError "if the external
  process reports non-zero completion or cannot be launched". Whatever the program did
  to the files stays done when it fails.
\<close>

definition check_output_cwd ::
  "('k, 'f, 'x) env \<Rightarrow> string list \<Rightarrow> path \<Rightarrow> 'x world \<Rightarrow> (exn + string list) \<times> 'x world" where
  "check_output_cwd E cmd cwd w =
     (case program E cmd cwd (files w) (toolchain w) of
        (outcome, fs', t') \<Rightarrow>
          (let w' = w\<lparr>files := fs', toolchain := t', calls := calls w @ [(cmd, cwd)]\<rparr>
           in case outcome of
                NotLaunched \<Rightarrow> (Inl CompilerInvocationError, w')
              | Exited code out \<Rightarrow>
                  if code \<noteq> 0 then (Inl CompilerInvocationError, w') else (Inr out, w')))"

text \<open>
  Modelled from the spec: \<open>assertions.has_file_extension\<close> is not among the sources.
  The spec says each wrapper "validates the requested output path's extension against
  its family" and fails on a mismatch; the docstring of \<open>build_pdf\<close> names the exception,
  ValueError (the spec's PathExtensionError).
\<close>

definition has_file_extension :: "path \<Rightarrow> string \<Rightarrow> exn + unit" where
  "has_file_extension filepath ext_required =
     (if snd (splitext filepath) \<noteq> ext_required then Inl ValueError else Inr ())"

text \<open>
  \<open>jinja2_extension.render_latex_template\<close> hands the template to Jinja2; the
  rendering itself is the environment's.
\<close>

definition render_latex_template ::
  "('k, 'f, 'x) env \<Rightarrow> path \<Rightarrow> string \<Rightarrow> 'k option \<Rightarrow> 'f option \<Rightarrow> exn + string" where
  "render_latex_template E root name kwargs flt = renderer E root name kwargs flt"

section \<open>Logging\<close>

definition LOGGER_debug :: "string \<Rightarrow> 'x world \<Rightarrow> 'x world" where
  "LOGGER_debug msg w = w\<lparr>logged := logged w @ [DEBUG msg]\<rparr>"

definition LOGGER_info :: "string \<Rightarrow> 'x world \<Rightarrow> 'x world" where
  "LOGGER_info msg w = w\<lparr>logged := logged w @ [INFO msg]\<rparr>"

definition LOGGER_exception :: "string \<Rightarrow> exn \<Rightarrow> 'x world \<Rightarrow> 'x world" where
  "LOGGER_exception msg e w = w\<lparr>logged := logged w @ [EXCEPTION msg e]\<rparr>"

section \<open>\<open>LatexBuild.run_latex\<close>\<close>

definition get_text_template :: "('k, 'f, 'x) env \<Rightarrow> ('k, 'f) LatexBuild \<Rightarrow> exn + string" where
  "get_text_template E self =
     render_latex_template E (path_jinja2 self) (template_name self)
       (template_kwargs self) (filters self)"

text \<open>The local path variables of \<open>run_latex\<close> ("Generate path variables").\<close>

record path_variables =
  path_template_random :: path
  path_template_dir :: path
  path_template_random_no_ext :: path
  path_template_random_aux :: path
  ext_outfile :: string
  path_outfile_initial :: path

definition generate_path_variables ::
  "('k, 'f, 'x) env \<Rightarrow> ('k, 'f) LatexBuild \<Rightarrow> path \<Rightarrow> 'x world \<Rightarrow> path_variables \<times> 'x world" where
  "generate_path_variables E self path_outfile w =
     (case random_name_filepath E (path_template self) w of
        (random, w') \<Rightarrow>
          (let no_ext = fst (splitext random);
               ext = snd (splitext path_outfile)
           in (\<lparr>path_template_random = random,
                path_template_dir = dirname random,
                path_template_random_no_ext = no_ext,
                path_template_random_aux = no_ext @ ''.aux'',
                ext_outfile = ext,
                path_outfile_initial = no_ext @ ext\<rparr>, w')))"

text \<open>
  "Handle special case of MS Word": the test reads \<open>cmd_wo_infile[0]\<close> first, which
  raises IndexError on an empty list. The result is \<open>(cmd_docx, cmd_wo_infile)\<close>.
\<close>

definition special_case_ms_word ::
  "('k, 'f) LatexBuild \<Rightarrow> string list \<Rightarrow> path \<Rightarrow> exn + (string list option \<times> string list)" where
  "special_case_ms_word self cmd_wo_infile outfile_initial =
     (case cmd_wo_infile of
        [] \<Rightarrow> Inl IndexError
      | c # _ \<Rightarrow>
          if c = ''latex2rtf'' \<and> length cmd_wo_infile = 1
          then Inr (Some (cmd_wo_infile @ [''-o'', outfile_initial]), [cmd_latex self])
          else Inr (None, cmd_wo_infile))"

text \<open>
  The \<open>while old_aux != new_aux\<close> loop. It ends with \<open>Inr ()\<close> when the two values are
  equal, with \<open>Inl e\<close> when a compiler call raises, and has no value when it runs forever.
\<close>

partial_function (option) aux_loop ::
  "('k, 'f, 'x) env \<Rightarrow> string list \<Rightarrow> path \<Rightarrow> path \<Rightarrow> string option \<Rightarrow> string option \<Rightarrow> 'x world
     \<Rightarrow> ((exn + unit) \<times> 'x world) option" where
  "aux_loop E cmd dir aux old_aux new_aux w =
     (if old_aux \<noteq> new_aux then
        (case check_output_cwd E cmd dir w of
           (Inl e, w1) \<Rightarrow> Some (Inl e, w1)
         | (Inr stdout, w1) \<Rightarrow>
             (let w2 = LOGGER_debug (join_lines stdout) w1
              in aux_loop E cmd dir aux new_aux (read_file aux w2) w2))
      else Some (Inr (), w))"

declare aux_loop.simps [code]

text \<open>
  The second "Handle special case of MS Word": \<open>if cmd_docx:\<close> holds for a non-empty
  list, and then the command runs once.
\<close>

definition ms_word_stage ::
  "('k, 'f, 'x) env \<Rightarrow> string list option \<Rightarrow> path_variables \<Rightarrow> 'x world \<Rightarrow> (exn + unit) \<times> 'x world" where
  "ms_word_stage E cmd_docx pv w =
     (case cmd_docx of
        None \<Rightarrow> (Inr (), w)
      | Some c \<Rightarrow>
          if c = [] then (Inr (), w)
          else (case check_output_cwd E (c @ [path_template_random pv]) (path_template_dir pv) w of
                  (Inl e, w1) \<Rightarrow> (Inl e, w1)
                | (Inr stdout, w1) \<Rightarrow> (Inr (), LOGGER_debug (join_lines stdout) w1)))"

text \<open>The sentinels \<open>old_aux, new_aux = random_str_uuid(1), random_str_uuid(2)\<close>.\<close>

definition sentinels ::
  "('k, 'f, 'x) env \<Rightarrow> 'x world \<Rightarrow> (string option \<times> string option) \<times> 'x world" where
  "sentinels E w =
     (case random_str_uuid E 1 w of
        (old_aux, w1) \<Rightarrow>
          (case random_str_uuid E 2 w1 of
             (new_aux, w2) \<Rightarrow> ((Some old_aux, Some new_aux), w2)))"

text \<open>The body of the \<open>try\<close> statement.\<close>

definition try_body ::
  "('k, 'f, 'x) env \<Rightarrow> ('k, 'f) LatexBuild \<Rightarrow> path_variables \<Rightarrow> string \<Rightarrow> string list option
     \<Rightarrow> string list \<Rightarrow> path \<Rightarrow> 'x world \<Rightarrow> ((exn + unit) \<times> 'x world) option" where
  "try_body E self pv text_template cmd_docx cmd_wo_infile path_outfile w =
     (let w1 = write_file (path_template_random pv) text_template w;
          cmd = cmd_wo_infile @ [path_template_random pv]
      in case sentinels E w1 of
           ((old_aux, new_aux), w2) \<Rightarrow>
             (case aux_loop E cmd (path_template_dir pv) (path_template_random_aux pv)
                     old_aux new_aux w2 of
                None \<Rightarrow> None
              | Some (Inl e, w3) \<Rightarrow> Some (Inl e, w3)
              | Some (Inr _, w3) \<Rightarrow>
                  (case ms_word_stage E cmd_docx pv w3 of
                     (Inl e, w4) \<Rightarrow> Some (Inl e, w4)
                   | (Inr _, w4) \<Rightarrow>
                       (case shutil_move (path_outfile_initial pv) path_outfile w4 of
                          (Inl e, w5) \<Rightarrow> Some (Inl e, w5)
                        | (Inr _, w5) \<Rightarrow>
                            Some (Inr (),
                              LOGGER_info (''Built '' @ path_outfile @ '' from '' @ path_template self)
                                w5)))))"

text \<open>The \<open>finally\<close> clause: remove every listed path, in order.\<close>

fun remove_each :: "path list \<Rightarrow> 'x world \<Rightarrow> (exn + unit) \<times> 'x world" where
  "remove_each [] w = (Inr (), w)"
| "remove_each (p # ps) w =
     (case os_remove p w of
        (Inl e, w') \<Rightarrow> (Inl e, w')
      | (Inr _, w') \<Rightarrow> remove_each ps w')"

definition finally_cleanup :: "path_variables \<Rightarrow> 'x world \<Rightarrow> (exn + unit) \<times> 'x world" where
  "finally_cleanup pv w =
     remove_each
       (list_filepathes_with_predicate (path_template_dir pv) (path_template_random_no_ext pv) w)
       w"

text \<open>The \<open>except Exception\<close> clause logs; a body that ended normally skips it.\<close>

definition except_clause :: "exn + unit \<Rightarrow> 'x world \<Rightarrow> 'x world" where
  "except_clause r w =
     (case r of
        Inl e \<Rightarrow> LOGGER_exception ''Failed during latex build'' e w
      | Inr _ \<Rightarrow> w)"

definition run_latex ::
  "('k, 'f, 'x) env \<Rightarrow> ('k, 'f) LatexBuild \<Rightarrow> string list \<Rightarrow> path \<Rightarrow> 'x world
     \<Rightarrow> ((exn + string) \<times> 'x world) option" where
  "run_latex E self cmd_wo_infile path_outfile w =
     (case get_text_template E self of
        Inl e \<Rightarrow> Some (Inl e, w)
      | Inr text_template \<Rightarrow>
          (case generate_path_variables E self path_outfile w of
             (pv, w0) \<Rightarrow>
               (case special_case_ms_word self cmd_wo_infile (path_outfile_initial pv) of
                  Inl e \<Rightarrow> Some (Inl e, w0)
                | Inr (cmd_docx, cmd_stage_a) \<Rightarrow>
                    (case try_body E self pv text_template cmd_docx cmd_stage_a path_outfile w0 of
                       None \<Rightarrow> None
                     | Some (r, w1) \<Rightarrow>
                         (case finally_cleanup pv (except_clause r w1) of
                            (Inl e, w2) \<Rightarrow> Some (Inl e, w2)
                          | (Inr _, w2) \<Rightarrow> Some (Inr text_template, w2))))))"

section \<open>The wrappers\<close>

definition build_pdf ::
  "('k, 'f, 'x) env \<Rightarrow> ('k, 'f) LatexBuild \<Rightarrow> path \<Rightarrow> 'x world \<Rightarrow> ((exn + string) \<times> 'x world) option" where
  "build_pdf E self path_outfile w =
     (case has_file_extension path_outfile ''.pdf'' of
        Inl e \<Rightarrow> Some (Inl e, w)
      | Inr _ \<Rightarrow> run_latex E self [cmd_latex self, ''-interaction'', ''nonstopmode''] path_outfile w)"

definition build_html ::
  "('k, 'f, 'x) env \<Rightarrow> ('k, 'f) LatexBuild \<Rightarrow> path \<Rightarrow> 'x world \<Rightarrow> ((exn + string) \<times> 'x world) option" where
  "build_html E self path_outfile w =
     (case has_file_extension path_outfile ''.html'' of
        Inl e \<Rightarrow> Some (Inl e, w)
      | Inr _ \<Rightarrow> run_latex E self [''htlatex''] path_outfile w)"

definition build_docx ::
  "('k, 'f, 'x) env \<Rightarrow> ('k, 'f) LatexBuild \<Rightarrow> path \<Rightarrow> 'x world \<Rightarrow> ((exn + string) \<times> 'x world) option" where
  "build_docx E self path_outfile w =
     (case has_file_extension path_outfile ''.docx'' of
        Inl e \<Rightarrow> Some (Inl e, w)
      | Inr _ \<Rightarrow> run_latex E self [''latex2rtf''] path_outfile w)"

section \<open>The passes of the convergence loop\<close>

text \<open>
  The loop's variables are \<open>(old_aux, new_aux)\<close> and the world. One pass is the loop body:
  it has no successor when the compiler call raises. \<open>passes k\<close> is the state after \<open>k\<close>
  passes, whatever the loop test says, and a state is unstable when the test
  \<open>old_aux != new_aux\<close> holds in it.
\<close>

type_synonym 'x loop_state = "string option \<times> string option \<times> 'x world"

definition loop_pass ::
  "('k, 'f, 'x) env \<Rightarrow> string list \<Rightarrow> path \<Rightarrow> path \<Rightarrow> 'x loop_state \<Rightarrow> 'x loop_state option" where
  "loop_pass E cmd dir aux s =
     (case s of
        (old_aux, new_aux, w) \<Rightarrow>
          (case check_output_cwd E cmd dir w of
             (Inl e, w1) \<Rightarrow> None
           | (Inr stdout, w1) \<Rightarrow>
               (let w2 = LOGGER_debug (join_lines stdout) w1
                in Some (new_aux, read_file aux w2, w2))))"

fun passes ::
  "('k, 'f, 'x) env \<Rightarrow> string list \<Rightarrow> path \<Rightarrow> path \<Rightarrow> nat \<Rightarrow> 'x loop_state \<Rightarrow> 'x loop_state option" where
  "passes E cmd dir aux 0 s = Some s"
| "passes E cmd dir aux (Suc k) s =
     (case loop_pass E cmd dir aux s of
        None \<Rightarrow> None
      | Some s' \<Rightarrow> passes E cmd dir aux k s')"

definition unstable :: "'x loop_state option \<Rightarrow> bool" where
  "unstable r = (case r of None \<Rightarrow> False | Some (old_aux, new_aux, w) \<Rightarrow> old_aux \<noteq> new_aux)"

text \<open>
  What the compiler leaves behind, apart from any test of the loop: \<open>world_after k\<close> is the
  world after \<open>k\<close> runs of the loop body's call and log line (none when a call raises), and
  \<open>aux_after k\<close> is what \<open>read_file\<close> returns for the auxiliary file in that world.
\<close>

fun world_after ::
  "('k, 'f, 'x) env \<Rightarrow> string list \<Rightarrow> path \<Rightarrow> nat \<Rightarrow> 'x world \<Rightarrow> 'x world option" where
  "world_after E cmd dir 0 w = Some w"
| "world_after E cmd dir (Suc k) w =
     (case check_output_cwd E cmd dir w of
        (Inl e, w1) \<Rightarrow> None
      | (Inr stdout, w1) \<Rightarrow> world_after E cmd dir k (LOGGER_debug (join_lines stdout) w1))"

definition aux_after ::
  "('k, 'f, 'x) env \<Rightarrow> string list \<Rightarrow> path \<Rightarrow> path \<Rightarrow> nat \<Rightarrow> 'x world \<Rightarrow> string option option" where
  "aux_after E cmd dir aux k w = map_option (read_file aux) (world_after E cmd dir k w)"

text \<open>The paths that the \<open>finally\<close> clause removes.\<close>

definition stem_file :: "path_variables \<Rightarrow> path \<Rightarrow> bool" where
  "stem_file pv p =
     (in_directory (path_template_dir pv) p \<and> prefix (path_template_random_no_ext pv) p)"


section \<open>Test doubles\<close>

text \<open>
  A stand-in for the toolchain, in the manner of the mock compilers of the spec's
  testable properties. Its state counts the runs. The program \<open>false\<close> exits with status
  1; \<open>latex2rtf\<close> writes the \<open>.docx\<close> beside its input; any other program writes a
  \<open>.pdf\<close> and an auxiliary file that grows by one character per run until it has
  \<open>lim\<close> characters.
\<close>

definition mock_program ::
  "nat \<Rightarrow> string list \<Rightarrow> path \<Rightarrow> filesystem \<Rightarrow> nat \<Rightarrow> proc_outcome \<times> filesystem \<times> nat" where
  "mock_program lim cmd cwd fs n =
     (let stem = fst (splitext (last cmd))
      in if hd cmd = ''false'' then (Exited 1 [], fs, n)
         else if hd cmd = ''latex2rtf''
         then (Exited 0 [''rtf''], AList.update (stem @ ''.docx'') ''DOCX'' fs, Suc n)
         else (Exited 0 [''pass''],
               AList.update (stem @ ''.pdf'') ''PDF''
                 (AList.update (stem @ ''.aux'') (replicate (min n lim) CHR ''x'') fs),
               Suc n))"

definition mock_env :: "nat \<Rightarrow> (unit, unit, nat) env" where
  "mock_env lim =
     \<lparr>renderer = (\<lambda>root name kwargs flt. Inr ''Hello''),
      program = mock_program lim,
      rand_char = (\<lambda>n. CHR ''7'')\<rparr>"

text \<open>A toolchain whose auxiliary file is longer after every run.\<close>

definition restless_program ::
  "string list \<Rightarrow> path \<Rightarrow> filesystem \<Rightarrow> nat \<Rightarrow> proc_outcome \<times> filesystem \<times> nat" where
  "restless_program cmd cwd fs n =
     (Exited 0 [''pass''],
      AList.update (fst (splitext (last cmd)) @ ''.aux'') (replicate n CHR ''x'') fs,
      Suc n)"

definition restless_env :: "(unit, unit, nat) env" where
  "restless_env =
     \<lparr>renderer = (\<lambda>root name kwargs flt. Inr ''Hello''),
      program = restless_program,
      rand_char = (\<lambda>n. CHR ''7'')\<rparr>"

definition mock_build :: "(unit, unit) LatexBuild" where
  "mock_build =
     \<lparr>path_jinja2 = ''/t'', template_name = ''d.tex'', template_kwargs = None,
      path_template = ''/t/d.tex'', filters = None, cmd_latex = ''pdflatex''\<rparr>"

definition mock_world :: "nat world" where
  "mock_world =
     \<lparr>files = [(''/t/d.tex'', ''template'')], toolchain = 0, calls = [], logged = [],
      rand_pos = 0\<rparr>"

text \<open>The path variables of a run of \<open>mock_build\<close> in \<open>mock_world\<close> towards \<open>/o/d.pdf\<close>.\<close>

definition mock_paths :: path_variables where
  "mock_paths =
     \<lparr>path_template_random = ''/t/d77777.tex'',
      path_template_dir = ''/t'',
      path_template_random_no_ext = ''/t/d77777'',
      path_template_random_aux = ''/t/d77777.aux'',
      ext_outfile = ''.pdf'',
      path_outfile_initial = ''/t/d77777.pdf''\<rparr>"


text \<open>
  An instance whose template root is written with a doubled separator, \<open>/t//\<close>, and the
  world in which its template exists.
\<close>

definition slash_build :: "(unit, unit) LatexBuild" where
  "slash_build =
     \<lparr>path_jinja2 = ''/t//'', template_name = ''d.tex'', template_kwargs = None,
      path_template = join ''/t//'' ''d.tex'', filters = None, cmd_latex = ''pdflatex''\<rparr>"

definition slash_world :: "nat world" where
  "slash_world =
     \<lparr>files = [(''/t//d.tex'', ''template'')], toolchain = 0, calls = [], logged = [],
      rand_pos = 0\<rparr>"

section \<open>Facts about the helpers\<close>

text \<open>The files of a directory are the joined paths of its names.\<close>

lemma join_name:
  "name \<noteq> [] \<Longrightarrow> CHR ''/'' \<notin> set name \<Longrightarrow>
   join d name = (if d = [] \<or> last d = CHR ''/'' then d else d @ ''/'') @ name"
  by (cases name) (auto simp: join_def)

lemma in_directory_join:
  "in_directory d p \<longleftrightarrow> (\<exists>name. name \<noteq> [] \<and> CHR ''/'' \<notin> set name \<and> p = join d name)"
proof
  let ?pre = "if d = [] \<or> last d = CHR ''/'' then d else d @ ''/''"
  assume "in_directory d p"
  then have pre: "prefix ?pre p" and ne: "drop (length ?pre) p \<noteq> []"
    and ns: "CHR ''/'' \<notin> set (drop (length ?pre) p)"
    by (simp_all add: in_directory_def Let_def)
  from pre have "p = ?pre @ drop (length ?pre) p"
    by (metis append_eq_conv_conj prefix_def)
  with join_name[OF ne ns, of d] have "p = join d (drop (length ?pre) p)"
    by simp
  with ne ns show "\<exists>name. name \<noteq> [] \<and> CHR ''/'' \<notin> set name \<and> p = join d name"
    by blast
next
  assume "\<exists>name. name \<noteq> [] \<and> CHR ''/'' \<notin> set name \<and> p = join d name"
  then obtain name where n: "name \<noteq> []" "CHR ''/'' \<notin> set name" "p = join d name"
    by blast
  with join_name[of name d] show "in_directory d p"
    by (auto simp: in_directory_def Let_def)
qed

lemma calls_check_output_cwd:
  "check_output_cwd E cmd dir w = (r, w') \<Longrightarrow> calls w' = calls w @ [(cmd, dir)]"
  by (auto simp: check_output_cwd_def Let_def split: prod.splits proc_outcome.splits if_splits)

lemma length_random_str_uuid: "length (fst (random_str_uuid E n w)) = n"
  by (simp add: random_str_uuid_def)

lemma world_random_str_uuid:
  "files (snd (random_str_uuid E n w)) = files w \<and>
   calls (snd (random_str_uuid E n w)) = calls w \<and>
   logged (snd (random_str_uuid E n w)) = logged w \<and>
   toolchain (snd (random_str_uuid E n w)) = toolchain w"
  by (simp add: random_str_uuid_def)

lemma sentinels_world:
  "sentinels E w = ((old_aux, new_aux), w') \<Longrightarrow>
   files w' = files w \<and> calls w' = calls w \<and> logged w' = logged w \<and> toolchain w' = toolchain w"
  by (auto simp: sentinels_def random_str_uuid_def split: prod.splits)

lemma sentinels_differ:
  "sentinels E w = ((old_aux, new_aux), w') \<Longrightarrow> old_aux \<noteq> new_aux"
proof -
  assume s: "sentinels E w = ((old_aux, new_aux), w')"
  then obtain a b where ab: "old_aux = Some a" "new_aux = Some b" "length a = 1" "length b = 2"
    by (auto simp: sentinels_def random_str_uuid_def split: prod.splits)
  then have "a \<noteq> b" by auto
  with ab show ?thesis by simp
qed


subsection \<open>The \<open>finally\<close> clause\<close>

lemma remove_each_present:
  "distinct ps \<Longrightarrow> set ps \<subseteq> fst ` set (files w) \<Longrightarrow>
   remove_each ps w = (Inr (), w\<lparr>files := filter (\<lambda>kv. fst kv \<notin> set ps) (files w)\<rparr>)"
proof (induction ps arbitrary: w)
  case Nil
  then show ?case by simp
next
  case (Cons p ps)
  from Cons.prems have "p \<in> fst ` set (files w)" by simp
  then obtain c where c: "map_of (files w) p = Some c"
    by (metis domD dom_map_of_conv_image_fst)
  define w' where "w' = w\<lparr>files := AList.delete p (files w)\<rparr>"
  have rm: "os_remove p w = (Inr (), w')"
    by (simp add: os_remove_def c w'_def)
  have sub: "set ps \<subseteq> fst ` set (files w')"
  proof
    fix q assume q: "q \<in> set ps"
    with Cons.prems have "q \<noteq> p" "q \<in> fst ` set (files w)" by auto
    then show "q \<in> fst ` set (files w')"
      by (auto simp: w'_def AList.delete_eq image_iff)
  qed
  from Cons.prems have "distinct ps" by simp
  from Cons.IH[OF this sub] have "remove_each ps w' =
      (Inr (), w'\<lparr>files := filter (\<lambda>kv. fst kv \<notin> set ps) (files w')\<rparr>)" .
  moreover have "filter (\<lambda>kv. fst kv \<notin> set ps) (files w') =
      filter (\<lambda>kv. fst kv \<notin> set (p # ps)) (files w)"
    by (auto simp: w'_def AList.delete_eq case_prod_beta intro!: filter_cong)
  ultimately show ?case
    using rm by (simp add: w'_def)
qed

lemma finally_cleanup_result:
  "finally_cleanup pv w = (Inr (), w\<lparr>files := filter (\<lambda>kv. \<not> stem_file pv (fst kv)) (files w)\<rparr>)"
proof -
  let ?ps = "list_filepathes_with_predicate (path_template_dir pv)
               (path_template_random_no_ext pv) w"
  have d: "distinct ?ps" and s: "set ?ps \<subseteq> fst ` set (files w)"
    by (auto simp: list_filepathes_with_predicate_def)
  have "filter (\<lambda>kv. fst kv \<notin> set ?ps) (files w) =
        filter (\<lambda>kv. \<not> stem_file pv (fst kv)) (files w)"
    by (rule filter_cong) (auto simp: list_filepathes_with_predicate_def stem_file_def image_iff)
  with remove_each_present[OF d s] show ?thesis
    by (simp add: finally_cleanup_def)
qed

lemma except_clause_files: "files (except_clause r w) = files w"
  by (cases r) (simp_all add: except_clause_def LOGGER_exception_def)


subsection \<open>The loop\<close>

lemma aux_loop_pass:
  "old \<noteq> new \<Longrightarrow> loop_pass E cmd dir aux (old, new, w) = Some (old', new', w') \<Longrightarrow>
   aux_loop E cmd dir aux old new w = aux_loop E cmd dir aux old' new' w'"
  by (subst aux_loop.simps) (auto simp: loop_pass_def Let_def split: prod.splits sum.splits)

lemma aux_loop_stable: "aux_loop E cmd dir aux v v w = Some (Inr (), w)"
  by (subst aux_loop.simps) simp

lemma calls_loop_pass:
  "loop_pass E cmd dir aux (old, new, w) = Some (old', new', w') \<Longrightarrow>
   calls w' = calls w @ [(cmd, dir)]"
  by (auto simp: loop_pass_def Let_def LOGGER_debug_def split: prod.splits sum.splits
      dest: calls_check_output_cwd)

lemma aux_loop_converges:
  "\<forall>k<N. unstable (passes E cmd dir aux k (old0, new0, w)) \<Longrightarrow>
   passes E cmd dir aux N (old0, new0, w) = Some (v, v, wN) \<Longrightarrow>
   aux_loop E cmd dir aux old0 new0 w = Some (Inr (), wN) \<and>
   calls wN = calls w @ replicate N (cmd, dir)"
proof (induction N arbitrary: old0 new0 w)
  case 0
  then show ?case by (simp add: aux_loop_stable)
next
  case (Suc N)
  from Suc.prems(1) have ne: "old0 \<noteq> new0"
    by (auto simp: unstable_def dest: spec[of _ 0])
  from Suc.prems(2) obtain old1 new1 w1 where
    p1: "loop_pass E cmd dir aux (old0, new0, w) = Some (old1, new1, w1)" and
    pN: "passes E cmd dir aux N (old1, new1, w1) = Some (v, v, wN)"
    by (auto split: option.splits)
  have "\<forall>k<N. unstable (passes E cmd dir aux k (old1, new1, w1))"
  proof (intro allI impI)
    fix k assume "k < N"
    then have "unstable (passes E cmd dir aux (Suc k) (old0, new0, w))"
      using Suc.prems(1)[rule_format, of "Suc k"] by simp
    then show "unstable (passes E cmd dir aux k (old1, new1, w1))"
      using p1 by simp
  qed
  from Suc.IH[OF this pN] aux_loop_pass[OF ne p1] calls_loop_pass[OF p1]
  show ?case by (simp add: replicate_append_same)
qed

lemma aux_loop_diverges:
  assumes "aux_loop (E :: ('k, 'f, 'x) env) cmd dir aux old0 new0 w = Some y"
  shows "\<exists>k. \<not> unstable (passes E cmd dir aux k (old0, new0, w))"
proof (rule aux_loop.raw_induct
    [where P = "\<lambda>E cmd dir aux old new w y. \<exists>k. \<not> unstable (passes E cmd dir aux k (old, new, w))",
      OF _ assms])
  fix f :: "('k, 'f, 'x) env \<Rightarrow> string list \<Rightarrow> path \<Rightarrow> path \<Rightarrow> string option \<Rightarrow> string option
              \<Rightarrow> 'x world \<Rightarrow> ((exn + unit) \<times> 'x world) option"
  fix E cmd dir aux old new w y
  assume IH: "\<And>E cmd dir aux old new w y. f E cmd dir aux old new w = Some y \<Longrightarrow>
                \<exists>k. \<not> unstable (passes E cmd dir aux k (old, new, w))"
  assume body: "(if old \<noteq> new
      then case check_output_cwd E cmd dir w of
           (Inl e, w1) \<Rightarrow> Some (Inl e, w1)
           | (Inr stdout, w1) \<Rightarrow>
               let w2 = LOGGER_debug (join_lines stdout) w1
               in f E cmd dir aux new (read_file aux w2) w2
      else Some (Inr (), w)) = Some y"
  show "\<exists>k. \<not> unstable (passes E cmd dir aux k (old, new, w))"
  proof (cases "unstable (passes E cmd dir aux 0 (old, new, w)) \<and>
                unstable (passes E cmd dir aux 1 (old, new, w))")
    case False
    then show ?thesis by blast
  next
    case True
    then have ne: "old \<noteq> new" by (simp add: unstable_def)
    from True obtain old1 new1 w1 where
      p1: "loop_pass E cmd dir aux (old, new, w) = Some (old1, new1, w1)"
      by (auto simp: unstable_def split: option.splits)
    with ne body have "f E cmd dir aux old1 new1 w1 = Some y"
      by (auto simp: loop_pass_def Let_def split: prod.splits sum.splits)
    from IH[OF this] obtain k where "\<not> unstable (passes E cmd dir aux k (old1, new1, w1))"
      by blast
    then have "\<not> unstable (passes E cmd dir aux (Suc k) (old, new, w))"
      using p1 by simp
    then show ?thesis by blast
  qed
qed


lemma aux_loop_calls:
  assumes "aux_loop (E :: ('k, 'f, 'x) env) cmd dir aux old0 new0 w = Some y"
  shows "\<exists>n. calls (snd y) = calls w @ replicate n (cmd, dir) \<and> (old0 \<noteq> new0 \<longrightarrow> 0 < n)"
proof (rule aux_loop.raw_induct
    [where P = "\<lambda>E cmd dir aux old new w y.
        \<exists>n. calls (snd y) = calls w @ replicate n (cmd, dir) \<and> (old \<noteq> new \<longrightarrow> 0 < n)",
      OF _ assms])
  fix f :: "('k, 'f, 'x) env \<Rightarrow> string list \<Rightarrow> path \<Rightarrow> path \<Rightarrow> string option \<Rightarrow> string option
              \<Rightarrow> 'x world \<Rightarrow> ((exn + unit) \<times> 'x world) option"
  fix E cmd dir aux old new w y
  assume IH: "\<And>E cmd dir aux old new w y. f E cmd dir aux old new w = Some y \<Longrightarrow>
     \<exists>n. calls (snd y) = calls w @ replicate n (cmd, dir) \<and> (old \<noteq> new \<longrightarrow> 0 < n)"
  assume body: "(if old \<noteq> new
      then case check_output_cwd E cmd dir w of
           (Inl e, w1) \<Rightarrow> Some (Inl e, w1)
           | (Inr stdout, w1) \<Rightarrow>
               let w2 = LOGGER_debug (join_lines stdout) w1
               in f E cmd dir aux new (read_file aux w2) w2
      else Some (Inr (), w)) = Some y"
  show "\<exists>n. calls (snd y) = calls w @ replicate n (cmd, dir) \<and> (old \<noteq> new \<longrightarrow> 0 < n)"
  proof (cases "old = new")
    case True
    with body have "y = (Inr (), w)" by simp
    with True show ?thesis by (intro exI[of _ 0]) simp
  next
    case ne: False
    obtain r w1 where c: "check_output_cwd E cmd dir w = (r, w1)"
      by (cases "check_output_cwd E cmd dir w")
    have c1: "calls w1 = calls w @ [(cmd, dir)]"
      using c by (rule calls_check_output_cwd)
    show ?thesis
    proof (cases r)
      case (Inl e)
      with body ne c have "y = (Inl e, w1)" by simp
      with c1 show ?thesis by (intro exI[of _ 1]) simp
    next
      case (Inr out)
      with body ne c have
        "f E cmd dir aux new (read_file aux (LOGGER_debug (join_lines out) w1))
           (LOGGER_debug (join_lines out) w1) = Some y"
        by (simp add: Let_def)
      from IH[OF this] obtain n where
        "calls (snd y) = calls (LOGGER_debug (join_lines out) w1) @ replicate n (cmd, dir)"
        by blast
      with c1 have "calls (snd y) = calls w @ replicate (Suc n) (cmd, dir)"
        by (simp add: LOGGER_debug_def)
      then show ?thesis by (intro exI[of _ "Suc n"]) simp
    qed
  qed
qed

lemma aux_loop_normal_end:
  assumes "aux_loop (E :: ('k, 'f, 'x) env) cmd dir aux old0 new0 w = Some y"
  shows "fst y = Inr () \<longrightarrow>
     (\<exists>N v. (\<forall>k<N. unstable (passes E cmd dir aux k (old0, new0, w))) \<and>
            passes E cmd dir aux N (old0, new0, w) = Some (v, v, snd y))"
proof (rule aux_loop.raw_induct
    [where P = "\<lambda>E cmd dir aux old new w y. fst y = Inr () \<longrightarrow>
     (\<exists>N v. (\<forall>k<N. unstable (passes E cmd dir aux k (old, new, w))) \<and>
            passes E cmd dir aux N (old, new, w) = Some (v, v, snd y))",
      OF _ assms])
  fix f :: "('k, 'f, 'x) env \<Rightarrow> string list \<Rightarrow> path \<Rightarrow> path \<Rightarrow> string option \<Rightarrow> string option
              \<Rightarrow> 'x world \<Rightarrow> ((exn + unit) \<times> 'x world) option"
  fix E cmd dir aux old new w y
  assume IH: "\<And>E cmd dir aux old new w y. f E cmd dir aux old new w = Some y \<Longrightarrow>
     fst y = Inr () \<longrightarrow>
     (\<exists>N v. (\<forall>k<N. unstable (passes E cmd dir aux k (old, new, w))) \<and>
            passes E cmd dir aux N (old, new, w) = Some (v, v, snd y))"
  assume body: "(if old \<noteq> new
      then case check_output_cwd E cmd dir w of
           (Inl e, w1) \<Rightarrow> Some (Inl e, w1)
           | (Inr stdout, w1) \<Rightarrow>
               let w2 = LOGGER_debug (join_lines stdout) w1
               in f E cmd dir aux new (read_file aux w2) w2
      else Some (Inr (), w)) = Some y"
  show "fst y = Inr () \<longrightarrow>
     (\<exists>N v. (\<forall>k<N. unstable (passes E cmd dir aux k (old, new, w))) \<and>
            passes E cmd dir aux N (old, new, w) = Some (v, v, snd y))"
  proof (cases "old = new")
    case True
    with body have "y = (Inr (), w)" by simp
    with True have "(\<forall>k<0. unstable (passes E cmd dir aux k (old, new, w))) \<and>
            passes E cmd dir aux 0 (old, new, w) = Some (new, new, snd y)" by simp
    then show ?thesis by blast
  next
    case ne: False
    obtain r w1 where c: "check_output_cwd E cmd dir w = (r, w1)"
      by (cases "check_output_cwd E cmd dir w")
    show ?thesis
    proof (cases r)
      case (Inl e)
      with body ne c have "y = (Inl e, w1)" by simp
      then show ?thesis by simp
    next
      case (Inr out)
      define w2 where "w2 = LOGGER_debug (join_lines out) w1"
      from Inr body ne c have "f E cmd dir aux new (read_file aux w2) w2 = Some y"
        by (simp add: Let_def w2_def)
      note ih = IH[OF this]
      have p1: "loop_pass E cmd dir aux (old, new, w) = Some (new, read_file aux w2, w2)"
        using c Inr by (simp add: loop_pass_def w2_def Let_def)
      show ?thesis
      proof
        assume "fst y = Inr ()"
        with ih obtain N v where
          u: "\<forall>k<N. unstable (passes E cmd dir aux k (new, read_file aux w2, w2))" and
          e: "passes E cmd dir aux N (new, read_file aux w2, w2) = Some (v, v, snd y)"
          by blast
        have "\<forall>k<Suc N. unstable (passes E cmd dir aux k (old, new, w))"
        proof (intro allI impI)
          fix k assume k: "k < Suc N"
          show "unstable (passes E cmd dir aux k (old, new, w))"
          proof (cases k)
            case 0
            with ne show ?thesis by (simp add: unstable_def)
          next
            case (Suc j)
            with k u p1 show ?thesis by simp
          qed
        qed
        moreover have "passes E cmd dir aux (Suc N) (old, new, w) = Some (v, v, snd y)"
          using p1 e by simp
        ultimately show "\<exists>N v. (\<forall>k<N. unstable (passes E cmd dir aux k (old, new, w))) \<and>
            passes E cmd dir aux N (old, new, w) = Some (v, v, snd y)"
          by blast
      qed
    qed
  qed
qed

text \<open>The loop in terms of the worlds after the compiler calls.\<close>

lemma world_after_Suc:
  "world_after E cmd dir (Suc k) w =
     (case world_after E cmd dir (Suc 0) w of
        None \<Rightarrow> None
      | Some w' \<Rightarrow> world_after E cmd dir k w')"
  by (simp split: prod.splits sum.splits)

lemma aux_loop_first_pass:
  assumes "old \<noteq> new" and "world_after E cmd dir (Suc 0) w = Some w1"
  shows "aux_loop E cmd dir aux old new w = aux_loop E cmd dir aux new (read_file aux w1) w1"
    and "calls w1 = calls w @ [(cmd, dir)]"
proof -
  obtain r w' where c: "check_output_cwd E cmd dir w = (r, w')"
    by (cases "check_output_cwd E cmd dir w")
  with assms(2) obtain out where r: "r = Inr out" and w1: "w1 = LOGGER_debug (join_lines out) w'"
    by (cases r) auto
  from assms(1) c r w1 show
    "aux_loop E cmd dir aux old new w = aux_loop E cmd dir aux new (read_file aux w1) w1"
    by (subst aux_loop.simps) (simp add: Let_def)
  from calls_check_output_cwd[OF c] w1 show "calls w1 = calls w @ [(cmd, dir)]"
    by (simp add: LOGGER_debug_def)
qed

lemma aux_loop_settles:
  assumes "old \<noteq> new"
      and "world_after E cmd dir (Suc n) w = Some wn"
      and "\<forall>k<n. (if k = 0 then Some new else aux_after E cmd dir aux k w) \<noteq>
                  aux_after E cmd dir aux (Suc k) w"
      and "(if n = 0 then Some new else aux_after E cmd dir aux n w) =
             aux_after E cmd dir aux (Suc n) w"
  shows "aux_loop E cmd dir aux old new w = Some (Inr (), wn) \<and>
         calls wn = calls w @ replicate (Suc n) (cmd, dir)"
  using assms
proof (induction n arbitrary: old new w)
  case 0
  from "0.prems"(2) have w1: "world_after E cmd dir (Suc 0) w = Some wn" .
  from "0.prems"(4) w1 have "read_file aux wn = new"
    by (simp add: aux_after_def del: world_after.simps)
  with aux_loop_first_pass(1)[OF "0.prems"(1) w1, where aux = aux]
    aux_loop_first_pass(2)[OF "0.prems"(1) w1] show ?case
    by (simp add: aux_loop_stable)
next
  case (Suc n)
  from Suc.prems(2) obtain w1 where
    w1: "world_after E cmd dir (Suc 0) w = Some w1" and
    wn: "world_after E cmd dir (Suc n) w1 = Some wn"
    by (subst (asm) world_after_Suc) (auto split: option.splits simp del: world_after.simps)
  have shift: "aux_after E cmd dir aux (Suc k) w = aux_after E cmd dir aux k w1" for k
    unfolding aux_after_def
    by (subst world_after_Suc) (simp add: w1 del: world_after.simps)
  have a1: "aux_after E cmd dir aux (Suc 0) w = Some (read_file aux w1)"
    by (simp add: aux_after_def w1 del: world_after.simps)
  have a0: "aux_after E cmd dir aux 0 w1 = Some (read_file aux w1)"
    by (simp add: aux_after_def)
  from Suc.prems(3) have "Some new \<noteq> aux_after E cmd dir aux (Suc 0) w"
    by (auto dest: spec[of _ 0])
  with a1 have ne: "new \<noteq> read_file aux w1" by auto
  have ch: "\<forall>k<n. (if k = 0 then Some (read_file aux w1) else aux_after E cmd dir aux k w1) \<noteq>
                  aux_after E cmd dir aux (Suc k) w1"
  proof (intro allI impI)
    fix k assume "k < n"
    with Suc.prems(3) have "aux_after E cmd dir aux (Suc k) w \<noteq>
        aux_after E cmd dir aux (Suc (Suc k)) w"
      by (auto dest: spec[of _ "Suc k"])
    then show "(if k = 0 then Some (read_file aux w1) else aux_after E cmd dir aux k w1) \<noteq>
                  aux_after E cmd dir aux (Suc k) w1"
      by (cases k) (simp_all add: shift a0 del: world_after.simps)
  qed
  have st: "(if n = 0 then Some (read_file aux w1) else aux_after E cmd dir aux n w1) =
             aux_after E cmd dir aux (Suc n) w1"
    using Suc.prems(4) by (cases n) (simp_all add: shift a0 del: world_after.simps)
  from Suc.IH[OF ne wn ch st] aux_loop_first_pass(1)[OF Suc.prems(1) w1, where aux = aux]
    aux_loop_first_pass(2)[OF Suc.prems(1) w1]
  show ?case by simp
qed

subsection \<open>The calls of the \<open>try\<close> body\<close>

lemma ms_word_stage_calls:
  "ms_word_stage E cmd_docx pv w = (r, w') \<Longrightarrow>
   calls w' = calls w @
     (case cmd_docx of
        None \<Rightarrow> []
      | Some c \<Rightarrow> if c = [] then [] else [(c @ [path_template_random pv], path_template_dir pv)])"
  by (auto simp: ms_word_stage_def LOGGER_debug_def split: option.splits if_splits prod.splits sum.splits
      dest: calls_check_output_cwd)

lemma shutil_move_calls: "shutil_move src dst w = (r, w') \<Longrightarrow> calls w' = calls w"
  by (auto simp: shutil_move_def split: option.splits)

lemma try_body_calls:
  assumes "try_body E self pv text_template cmd_docx cmd_wo_infile path_outfile w = Some (r, w1)"
  shows "\<exists>old_aux new_aux w2 lr w3 n.
           sentinels E (write_file (path_template_random pv) text_template w) =
             ((old_aux, new_aux), w2) \<and>
           aux_loop E (cmd_wo_infile @ [path_template_random pv]) (path_template_dir pv)
             (path_template_random_aux pv) old_aux new_aux w2 = Some (lr, w3) \<and>
           0 < n \<and>
           calls w3 = calls w @
             replicate n (cmd_wo_infile @ [path_template_random pv], path_template_dir pv) \<and>
           calls w1 = calls w3 @
             (case lr of
                Inl e \<Rightarrow> []
              | Inr u \<Rightarrow>
                  (case cmd_docx of
                     None \<Rightarrow> []
                   | Some c \<Rightarrow>
                       if c = [] then []
                       else [(c @ [path_template_random pv], path_template_dir pv)]))"
proof -
  let ?w = "write_file (path_template_random pv) text_template w"
  let ?cmd = "cmd_wo_infile @ [path_template_random pv]"
  obtain old_aux new_aux w2 where s: "sentinels E ?w = ((old_aux, new_aux), w2)"
    by (metis surj_pair)
  have c2: "calls w2 = calls w"
    using sentinels_world[OF s] by (simp add: write_file_def)
  have ne: "old_aux \<noteq> new_aux"
    using s by (rule sentinels_differ)
  from assms s obtain lr w3 where
    l: "aux_loop E ?cmd (path_template_dir pv) (path_template_random_aux pv)
          old_aux new_aux w2 = Some (lr, w3)"
    by (auto simp: try_body_def Let_def split: option.splits)
  from aux_loop_calls[OF l] ne c2 obtain n where
    n: "0 < n" "calls w3 = calls w @ replicate n (?cmd, path_template_dir pv)"
    by auto
  have "calls w1 = calls w3 @
             (case lr of
                Inl e \<Rightarrow> []
              | Inr u \<Rightarrow>
                  (case cmd_docx of
                     None \<Rightarrow> []
                   | Some c \<Rightarrow>
                       if c = [] then []
                       else [(c @ [path_template_random pv], path_template_dir pv)]))"
  proof (cases lr)
    case (Inl e)
    with assms s l have "w1 = w3" by (simp add: try_body_def Let_def)
    with Inl show ?thesis by simp
  next
    case (Inr u)
    obtain mr w4 where m: "ms_word_stage E cmd_docx pv w3 = (mr, w4)"
      by (cases "ms_word_stage E cmd_docx pv w3")
    note c4 = ms_word_stage_calls[OF m]
    show ?thesis
    proof (cases mr)
      case (Inl e)
      with assms s l Inr m have "w1 = w4" by (simp add: try_body_def Let_def)
      with c4 Inr show ?thesis by simp
    next
      case mok: (Inr u')
      obtain vr w5 where v: "shutil_move (path_outfile_initial pv) path_outfile w4 = (vr, w5)"
        by (cases "shutil_move (path_outfile_initial pv) path_outfile w4")
      with assms s l Inr m mok have "calls w1 = calls w5"
        by (cases vr) (auto simp: try_body_def Let_def LOGGER_info_def)
      with shutil_move_calls[OF v] c4 Inr show ?thesis by simp
    qed
  qed
  with s l n show ?thesis by blast
qed

subsection \<open>The restless toolchain never settles\<close>

lemma restless_pass:
  assumes "new \<noteq> Some (replicate (toolchain w) CHR ''x'')"
  shows "\<exists>w'. loop_pass restless_env [''pdflatex'', ''/t/d77777.tex''] ''/t'' ''/t/d77777.aux''
                 (old, new, w) = Some (new, Some (replicate (toolchain w) CHR ''x''), w') \<and>
               toolchain w' = Suc (toolchain w)"
proof -
  have stem: "fst (splitext (last [''pdflatex'', ''/t/d77777.tex''])) @ ''.aux'' = ''/t/d77777.aux''"
    by code_simp
  show ?thesis
    unfolding loop_pass_def check_output_cwd_def restless_env_def restless_program_def
      LOGGER_debug_def read_file_def
    by (simp add: stem Let_def AList.update_conv' del: last.simps)
qed

lemma restless_unstable:
  "old \<noteq> new \<Longrightarrow> new \<noteq> Some (replicate (toolchain w) CHR ''x'') \<Longrightarrow>
   unstable (passes restless_env [''pdflatex'', ''/t/d77777.tex''] ''/t'' ''/t/d77777.aux'' k
     (old, new, w))"
proof (induction k arbitrary: old new w)
  case 0
  then show ?case by (simp add: unstable_def)
next
  case (Suc k)
  from restless_pass[OF Suc.prems(2), of old] obtain w' where
    p: "loop_pass restless_env [''pdflatex'', ''/t/d77777.tex''] ''/t'' ''/t/d77777.aux''
          (old, new, w) = Some (new, Some (replicate (toolchain w) CHR ''x''), w')" and
    t: "toolchain w' = Suc (toolchain w)"
    by blast
  have "unstable (passes restless_env [''pdflatex'', ''/t/d77777.tex''] ''/t'' ''/t/d77777.aux'' k
     (new, Some (replicate (toolchain w) CHR ''x''), w'))"
    using Suc.prems(2) by (intro Suc.IH) (simp_all add: t)
  with p show ?case by simp
qed

subsection \<open>\<open>run_latex\<close> once the body is reached\<close>

lemma run_latex_body:
  assumes "get_text_template E self = Inr text_template"
      and "generate_path_variables E self path_outfile w = (pv, w0)"
      and "special_case_ms_word self cmd_wo_infile (path_outfile_initial pv) = Inr (cmd_docx, cmd_a)"
  shows "run_latex E self cmd_wo_infile path_outfile w =
           (case try_body E self pv text_template cmd_docx cmd_a path_outfile w0 of
              None \<Rightarrow> None
            | Some (r, w1) \<Rightarrow>
                Some (Inr text_template,
                  (except_clause r w1)
                    \<lparr>files := filter (\<lambda>kv. \<not> stem_file pv (fst kv)) (files w1)\<rparr>))"
  using assms
  by (simp add: run_latex_def finally_cleanup_result except_clause_files
      split: option.splits prod.splits)

lemma run_latex_Inr:
  assumes "run_latex E self cmd_wo_infile path_outfile w = Some (Inr t, w')"
  shows "\<exists>pv w0 cmd_docx cmd_a r w1.
           get_text_template E self = Inr t \<and>
           generate_path_variables E self path_outfile w = (pv, w0) \<and>
           special_case_ms_word self cmd_wo_infile (path_outfile_initial pv) =
             Inr (cmd_docx, cmd_a) \<and>
           try_body E self pv t cmd_docx cmd_a path_outfile w0 = Some (r, w1) \<and>
           w' = (except_clause r w1)
                  \<lparr>files := filter (\<lambda>kv. \<not> stem_file pv (fst kv)) (files w1)\<rparr>"
proof -
  obtain pv w0 where g: "generate_path_variables E self path_outfile w = (pv, w0)"
    by (cases "generate_path_variables E self path_outfile w")
  from assms obtain t' where t: "get_text_template E self = Inr t'"
    by (cases "get_text_template E self") (auto simp: run_latex_def)
  from assms t g obtain cmd_docx cmd_a where
    sc: "special_case_ms_word self cmd_wo_infile (path_outfile_initial pv) = Inr (cmd_docx, cmd_a)"
    by (cases "special_case_ms_word self cmd_wo_infile (path_outfile_initial pv)")
       (auto simp: run_latex_def)
  from assms show ?thesis
    unfolding run_latex_body[OF t g sc] using t g sc
    by (auto split: option.splits)
qed

lemma stem_files_filtered:
  "stem_file pv p \<Longrightarrow> map_of (filter (\<lambda>kv. \<not> stem_file pv (fst kv)) fs) p = None"
  by (auto simp: map_of_eq_None_iff)

text \<open>Whatever the cleanup lists is gone when \<open>run_latex\<close> returns.\<close>

lemma run_latex_removes_listed_files:
  assumes "run_latex E self cmd_wo_infile path_outfile w = Some (Inr t, w')"
  shows "\<forall>p. stem_file (fst (generate_path_variables E self path_outfile w)) p \<longrightarrow>
             map_of (files w') p = None"
proof -
  from run_latex_Inr[OF assms] obtain pv w0 r w1 where
    g: "generate_path_variables E self path_outfile w = (pv, w0)" and
    w': "w' = (except_clause r w1)
                  \<lparr>files := filter (\<lambda>kv. \<not> stem_file pv (fst kv)) (files w1)\<rparr>"
    by blast
  show ?thesis
    by (simp add: g w' stem_files_filtered)
qed

text \<open>
  When the temporary source is the joined path of its directory and a name, it and the
  auxiliary file are among the listed paths, and are gone when \<open>run_latex\<close> returns.
\<close>

lemma rfind_ge:
  assumes "i < length s" and "s ! i = c"
  shows "int i \<le> rfind c s"
proof -
  let ?xs = "filter (\<lambda>i. s ! i = c) (rev [0..<length s])"
  have srt: "sorted_wrt (\<lambda>x y. y < x) ?xs"
    by (intro sorted_wrt_filter) (simp add: sorted_wrt_rev)
  from assms have mem: "i \<in> set ?xs" by simp
  show ?thesis
  proof (cases ?xs)
    case Nil
    with mem show ?thesis by simp
  next
    case (Cons y ys)
    with srt mem have "i \<le> y" by auto
    with Cons show ?thesis by (simp add: rfind_def)
  qed
qed

lemma splitext_stem:
  "fst (splitext p) = p \<or>
   (fst (splitext p) = take (nat (rfind CHR ''.'' p)) p \<and> rfind CHR ''/'' p < rfind CHR ''.'' p)"
  by (simp add: splitext_def Let_def)

lemma prefix_splitext: "prefix (fst (splitext p)) p"
  using splitext_stem[of p] by (auto simp: take_is_prefix)

lemma in_directory_stem_suffix:
  assumes "in_directory d p" and "e \<noteq> []" and "CHR ''/'' \<notin> set e"
  shows "in_directory d (fst (splitext p) @ e)"
proof -
  define pre where "pre = (if d = [] \<or> last d = CHR ''/'' then d else d @ ''/'')"
  have lst: "pre \<noteq> [] \<Longrightarrow> last pre = CHR ''/''"
    by (simp add: pre_def split: if_splits)
  from assms(1) have pp: "prefix pre p"
    by (simp add: in_directory_def Let_def pre_def)
  then obtain name where p: "p = pre @ name"
    by (auto simp: prefix_def)
  from assms(1) have ns: "CHR ''/'' \<notin> set name"
    unfolding in_directory_def Let_def pre_def[symmetric] by (simp add: p)
  have goal: "in_directory d (pre @ n @ e)" if "CHR ''/'' \<notin> set n" for n
    unfolding in_directory_def Let_def pre_def[symmetric]
    using that assms(2,3) by simp
  from splitext_stem[of p] show ?thesis
  proof
    assume "fst (splitext p) = p"
    with goal[OF ns] show ?thesis by (simp add: p)
  next
    assume a: "fst (splitext p) = take (nat (rfind CHR ''.'' p)) p \<and>
               rfind CHR ''/'' p < rfind CHR ''.'' p"
    define k where "k = nat (rfind CHR ''.'' p)"
    have len: "length pre \<le> k"
    proof (cases "pre = []")
      case True
      then show ?thesis by simp
    next
      case False
      then have i: "length pre - 1 < length p" unfolding p by (cases pre) simp_all
      from False have "p ! (length pre - 1) = last pre"
        by (simp add: p nth_append last_conv_nth)
      with lst[OF False] have "p ! (length pre - 1) = CHR ''/''" by simp
      from rfind_ge[OF i this] a have "int (length pre - 1) < rfind CHR ''.'' p" by simp
      with False show ?thesis by (cases pre) (simp_all add: k_def)
    qed
    from a have "fst (splitext p) = take k p" by (simp add: k_def)
    also from len have "\<dots> = pre @ take (k - length pre) name"
      by (simp add: p)
    finally have st: "fst (splitext p) = pre @ take (k - length pre) name" .
    have "CHR ''/'' \<notin> set (take (k - length pre) name)"
      using ns by (meson in_set_takeD)
    from goal[OF this] show ?thesis by (simp add: st)
  qed
qed

lemma temp_files_are_stem_files:
  assumes "generate_path_variables E self path_outfile w = (pv, w0)"
      and "in_directory (path_template_dir pv) (path_template_random pv)"
  shows "stem_file pv (path_template_random pv)"
    and "stem_file pv (path_template_random_aux pv)"
proof -
  from assms(1) have st: "path_template_random_no_ext pv = fst (splitext (path_template_random pv))"
    and ax: "path_template_random_aux pv = path_template_random_no_ext pv @ ''.aux''"
    by (auto simp: generate_path_variables_def Let_def split: prod.splits)
  from assms(2) show "stem_file pv (path_template_random pv)"
    by (simp add: stem_file_def st prefix_splitext)
  from in_directory_stem_suffix[OF assms(2), of "''.aux''"]
  show "stem_file pv (path_template_random_aux pv)"
    by (simp add: stem_file_def ax st)
qed

lemma run_latex_removes_temp_files:
  assumes "run_latex E self cmd_wo_infile path_outfile w = Some (Inr t, w')"
      and "generate_path_variables E self path_outfile w = (pv, w0)"
      and "in_directory (path_template_dir pv) (path_template_random pv)"
  shows "map_of (files w') (path_template_random pv) = None \<and>
         map_of (files w') (path_template_random_aux pv) = None"
  using run_latex_removes_listed_files[OF assms(1)] temp_files_are_stem_files[OF assms(2,3)]
  by (simp add: assms(2))

lemma try_body_ends:
  assumes "sentinels E (write_file (path_template_random pv) text_template w0) =
             ((old_aux, new_aux), wl)"
      and "aux_loop E (cmd_a @ [path_template_random pv]) (path_template_dir pv)
             (path_template_random_aux pv) old_aux new_aux wl = Some lr"
  shows "\<exists>r w1. try_body E self pv text_template cmd_docx cmd_a path_outfile w0 = Some (r, w1)"
  using assms
  by (auto simp: try_body_def Let_def split: prod.splits sum.splits option.splits)

lemma mock_renders: "get_text_template (mock_env lim) mock_build = Inr ''Hello''"
  by (simp add: get_text_template_def render_latex_template_def mock_env_def)

lemma restless_renders: "get_text_template restless_env mock_build = Inr ''Hello''"
  by (simp add: get_text_template_def render_latex_template_def restless_env_def)

lemma restless_run_never_returns:
  "run_latex restless_env mock_build [''pdflatex''] ''/o/d.pdf'' mock_world = None"
proof -
  let ?w0 = "mock_world\<lparr>rand_pos := 5\<rparr>"
  let ?wl = "(write_file ''/t/d77777.tex'' ''Hello'' mock_world)\<lparr>rand_pos := 8\<rparr>"
  have g: "generate_path_variables restless_env mock_build ''/o/d.pdf'' mock_world =
             (mock_paths, ?w0)"
    by code_simp
  have sc: "special_case_ms_word mock_build [''pdflatex''] (path_outfile_initial mock_paths) =
              Inr (None, [''pdflatex''])"
    by code_simp
  have s: "sentinels restless_env (write_file (path_template_random mock_paths) ''Hello'' ?w0) =
             ((Some ''7'', Some ''77''), ?wl)"
    by code_simp
  have u: "unstable (passes restless_env [''pdflatex'', ''/t/d77777.tex''] ''/t'' ''/t/d77777.aux''
             k (Some ''7'', Some ''77'', ?wl))" for k
    by (rule restless_unstable) (simp_all add: write_file_def mock_world_def)
  have l: "aux_loop restless_env [''pdflatex'', ''/t/d77777.tex''] ''/t'' ''/t/d77777.aux''
             (Some ''7'') (Some ''77'') ?wl = None"
  proof (rule ccontr)
    assume "aux_loop restless_env [''pdflatex'', ''/t/d77777.tex''] ''/t'' ''/t/d77777.aux''
             (Some ''7'') (Some ''77'') ?wl \<noteq> None"
    then obtain y where "aux_loop restless_env [''pdflatex'', ''/t/d77777.tex''] ''/t''
        ''/t/d77777.aux'' (Some ''7'') (Some ''77'') ?wl = Some y"
      by blast
    from aux_loop_diverges[OF this] u show False by blast
  qed
  have p: "path_template_random mock_paths = ''/t/d77777.tex''"
    "path_template_dir mock_paths = ''/t''"
    "path_template_random_aux mock_paths = ''/t/d77777.aux''"
    by (simp_all add: mock_paths_def)
  have "try_body restless_env mock_build mock_paths ''Hello'' None [''pdflatex''] ''/o/d.pdf'' ?w0
          = None"
    unfolding try_body_def Let_def s by (simp add: p l)
  then show ?thesis
    unfolding run_latex_body[OF restless_renders g sc] by simp
qed

subsection \<open>The move\<close>

lemma map_of_filter_keep:
  "P k \<Longrightarrow> map_of (filter (\<lambda>kv. P (fst kv)) xs) k = map_of xs k"
  by (induction xs) auto

lemma shutil_move_files:
  assumes "shutil_move src dst w = (Inr (), w')"
  shows "\<exists>content. map_of (files w) src = Some content \<and>
           (\<forall>p. map_of (files w') p =
                 (if p = dst then Some content
                  else if p = src then None
                  else map_of (files w) p))"
proof (cases "map_of (files w) src")
  case None
  with assms show ?thesis by (simp add: shutil_move_def)
next
  case (Some content)
  with assms have "files w' = AList.update dst content (AList.delete src (files w))"
    by (auto simp: shutil_move_def)
  with Some show ?thesis
    by (simp add: AList.update_conv' AList.delete_conv')
qed

lemma try_body_success:
  assumes "try_body E self pv text_template cmd_docx cmd_a path_outfile w0 = Some (Inr (), w1)"
  shows "\<exists>old_aux new_aux wl w3 w4 w5.
           sentinels E (write_file (path_template_random pv) text_template w0) =
             ((old_aux, new_aux), wl) \<and>
           aux_loop E (cmd_a @ [path_template_random pv]) (path_template_dir pv)
             (path_template_random_aux pv) old_aux new_aux wl = Some (Inr (), w3) \<and>
           ms_word_stage E cmd_docx pv w3 = (Inr (), w4) \<and>
           shutil_move (path_outfile_initial pv) path_outfile w4 = (Inr (), w5) \<and>
           w1 = LOGGER_info (''Built '' @ path_outfile @ '' from '' @ path_template self) w5"
  using assms
  by (auto simp: try_body_def Let_def split: prod.splits sum.splits option.splits)

subsection \<open>The calls of a run\<close>




section \<open>The claims\<close>

subsection \<open>An empty command\<close>

text \<open>
  C10: when the template renders, a call of \<open>run_latex\<close> with an empty command list raises
  IndexError at the test \<open>cmd_wo_infile[0] == "latex2rtf"\<close>. Only the random characters
  of the temporary name have been drawn by then: the files, the calls of the subprocess
  primitive and the log of the returned world are those of the world the call started in.
\<close>

theorem empty_command_raises_IndexError:
  assumes "get_text_template E self = Inr text_template"
  shows "run_latex E self [] path_outfile w =
           Some (Inl IndexError, w\<lparr>rand_pos := rand_pos w + length_random\<rparr>)"
  using assms
  by (simp add: run_latex_def generate_path_variables_def random_name_filepath_def
      random_str_uuid_def special_case_ms_word_def Let_def split: prod.splits)

theorem empty_command_raises_IndexError_witness:
  "get_text_template (mock_env 1) mock_build = Inr ''Hello'' \<and>
   run_latex (mock_env 1) mock_build [] ''/o/d.pdf'' mock_world =
     Some (Inl IndexError, mock_world\<lparr>rand_pos := rand_pos mock_world + length_random\<rparr>)"
proof -
  have h: "get_text_template (mock_env 1) mock_build = Inr ''Hello''"
    by (simp add: get_text_template_def render_latex_template_def mock_env_def)
  from h empty_command_raises_IndexError[OF h] show ?thesis by simp
qed

subsection \<open>The wrappers\<close>

text \<open>
  C7: a call of \<open>build_pdf\<close>, \<open>build_html\<close> or \<open>build_docx\<close> whose output path does not have
  the extension \<open>.pdf\<close>, \<open>.html\<close> or \<open>.docx\<close> raises the extension error and leaves the
  world as it found it: no subprocess has been called and no file written.
\<close>

theorem wrappers_check_extension_first:
  "(snd (splitext path_outfile) \<noteq> ''.pdf'' \<longrightarrow>
      build_pdf E self path_outfile w = Some (Inl ValueError, w)) \<and>
   (snd (splitext path_outfile) \<noteq> ''.html'' \<longrightarrow>
      build_html E self path_outfile w = Some (Inl ValueError, w)) \<and>
   (snd (splitext path_outfile) \<noteq> ''.docx'' \<longrightarrow>
      build_docx E self path_outfile w = Some (Inl ValueError, w))"
  by (simp add: build_pdf_def build_html_def build_docx_def has_file_extension_def)

theorem wrappers_check_extension_first_witness:
  "snd (splitext ''/o/d.txt'') \<noteq> ''.pdf'' \<and>
   snd (splitext ''/o/d.txt'') \<noteq> ''.html'' \<and>
   snd (splitext ''/o/d.txt'') \<noteq> ''.docx'' \<and>
   build_pdf (mock_env 1) mock_build ''/o/d.txt'' mock_world = Some (Inl ValueError, mock_world) \<and>
   build_html (mock_env 1) mock_build ''/o/d.txt'' mock_world = Some (Inl ValueError, mock_world) \<and>
   build_docx (mock_env 1) mock_build ''/o/d.txt'' mock_world = Some (Inl ValueError, mock_world)"
proof -
  have e: "snd (splitext ''/o/d.txt'') = ''.txt''"
    by code_simp
  from wrappers_check_extension_first[of "''/o/d.txt''" "mock_env 1" mock_build mock_world]
  show ?thesis by (simp add: e)
qed

subsection \<open>The sentinels\<close>

text \<open>
  C6: the two sentinels that \<open>run_latex\<close> draws, \<open>random_str_uuid(1)\<close> and
  \<open>random_str_uuid(2)\<close>, are different (they have different lengths), so from them the
  loop test holds and the loop is one compiler call followed by the rest of the loop; and
  whenever the \<open>try\<close> body ends, the first call it made is the compiler command with the
  temporary source appended, run in the template's directory.
\<close>

theorem sentinels_force_first_pass:
  "(sentinels E w = ((old_aux, new_aux), w') \<longrightarrow>
      old_aux \<noteq> new_aux \<and>
      aux_loop E cmd dir aux old_aux new_aux w' =
        (case check_output_cwd E cmd dir w' of
           (Inl e, w1) \<Rightarrow> Some (Inl e, w1)
         | (Inr stdout, w1) \<Rightarrow>
             (let w2 = LOGGER_debug (join_lines stdout) w1
              in aux_loop E cmd dir aux new_aux (read_file aux w2) w2))) \<and>
   (try_body E self pv text_template cmd_docx cmd_wo_infile path_outfile w0 = Some (r, w3) \<longrightarrow>
      (\<exists>rest. calls w3 =
         calls w0 @ (cmd_wo_infile @ [path_template_random pv], path_template_dir pv) # rest))"
proof (intro conjI impI)
  assume s: "sentinels E w = ((old_aux, new_aux), w')"
  then show ne: "old_aux \<noteq> new_aux" by (rule sentinels_differ)
  then show "aux_loop E cmd dir aux old_aux new_aux w' =
        (case check_output_cwd E cmd dir w' of
           (Inl e, w1) \<Rightarrow> Some (Inl e, w1)
         | (Inr stdout, w1) \<Rightarrow>
             (let w2 = LOGGER_debug (join_lines stdout) w1
              in aux_loop E cmd dir aux new_aux (read_file aux w2) w2))"
    by (subst aux_loop.simps) simp
next
  assume "try_body E self pv text_template cmd_docx cmd_wo_infile path_outfile w0 = Some (r, w3)"
  from try_body_calls[OF this] show "\<exists>rest. calls w3 =
         calls w0 @ (cmd_wo_infile @ [path_template_random pv], path_template_dir pv) # rest"
    apply (elim exE conjE)
    subgoal for old_aux new_aux w2 lr w4 n
      by (cases n) simp_all
    done
qed



theorem sentinels_force_first_pass_witness:
  "sentinels (mock_env 1) mock_world = ((Some ''7'', Some ''77''), mock_world\<lparr>rand_pos := 3\<rparr>) \<and>
   try_body (mock_env 1) mock_build mock_paths ''Hello'' None [''pdflatex''] ''/o/d.pdf'' mock_world =
     Some (Inr (),
       \<lparr>files = [(''/t/d.tex'', ''template''), (''/t/d77777.tex'', ''Hello''),
                 (''/t/d77777.aux'', ''x''), (''/o/d.pdf'', ''PDF'')],
        toolchain = 3,
        calls = replicate 3 ([''pdflatex'', ''/t/d77777.tex''], ''/t''),
        logged = [DEBUG ''pass'', DEBUG ''pass'', DEBUG ''pass'',
                  INFO ''Built /o/d.pdf from /t/d.tex''],
        rand_pos = 3\<rparr>) \<and>
   Some ''7'' \<noteq> Some ''77'' \<and>
   (\<exists>rest. replicate 3 ([''pdflatex'', ''/t/d77777.tex''], ''/t'') =
      calls mock_world @ ([''pdflatex''] @ [path_template_random mock_paths],
        path_template_dir mock_paths) # rest)"
proof -
  have s: "sentinels (mock_env 1) mock_world =
             ((Some ''7'', Some ''77''), mock_world\<lparr>rand_pos := 3\<rparr>)"
    by code_simp
  have t: "try_body (mock_env 1) mock_build mock_paths ''Hello'' None [''pdflatex''] ''/o/d.pdf''
             mock_world =
     Some (Inr (),
       \<lparr>files = [(''/t/d.tex'', ''template''), (''/t/d77777.tex'', ''Hello''),
                 (''/t/d77777.aux'', ''x''), (''/o/d.pdf'', ''PDF'')],
        toolchain = 3,
        calls = replicate 3 ([''pdflatex'', ''/t/d77777.tex''], ''/t''),
        logged = [DEBUG ''pass'', DEBUG ''pass'', DEBUG ''pass'',
                  INFO ''Built /o/d.pdf from /t/d.tex''],
        rand_pos = 3\<rparr>)"
    by code_simp
  note T = sentinels_force_first_pass[where E = "mock_env 1" and w = mock_world and
      old_aux = "Some ''7''" and new_aux = "Some ''77''" and w' = "mock_world\<lparr>rand_pos := 3\<rparr>" and
      self = mock_build and pv = mock_paths and text_template = "''Hello''" and
      cmd_docx = None and cmd_wo_infile = "[''pdflatex'']" and path_outfile = "''/o/d.pdf''" and
      ?w0.0 = mock_world and r = "Inr ()"]
  have a: "Some ''7'' \<noteq> Some ''77''"
    by (rule T[THEN conjunct1, rule_format, OF s, THEN conjunct1])
  from T[THEN conjunct2, rule_format, OF t] have b:
    "\<exists>rest. replicate 3 ([''pdflatex'', ''/t/d77777.tex''], ''/t'') =
      calls mock_world @ ([''pdflatex''] @ [path_template_random mock_paths],
        path_template_dir mock_paths) # rest"
    by simp
  show ?thesis by (rule conjI[OF s conjI[OF t conjI[OF a b]]])
qed

subsection \<open>The convergence loop\<close>

text \<open>
  C3: let the loop start from the sentinels, let the first \<open>N + 1\<close> compiler calls succeed,
  let the auxiliary content after each of the first \<open>N\<close> calls differ from the content
  before it (the first content not being the second sentinel), and let the call after
  those leave it as it is. Then the content has settled after exactly \<open>N\<close> calls, and the
  loop ends normally after exactly \<open>N + 1\<close> calls, in the world after them: it needs one
  more call to read the same content twice.
\<close>

theorem convergence_loop_one_more_pass:
  assumes "0 < N"
      and "sentinels E w' = ((old_aux, new_aux), w)"
      and "world_after E cmd dir (Suc N) w = Some wN"
      and "aux_after E cmd dir aux 1 w \<noteq> Some new_aux"
      and "\<forall>k. 0 < k \<and> k < N \<longrightarrow>
             aux_after E cmd dir aux k w \<noteq> aux_after E cmd dir aux (Suc k) w"
      and "aux_after E cmd dir aux N w = aux_after E cmd dir aux (Suc N) w"
  shows "aux_loop E cmd dir aux old_aux new_aux w = Some (Inr (), wN) \<and>
         calls wN = calls w @ replicate (Suc N) (cmd, dir)"
proof (rule aux_loop_settles)
  from assms(2) show "old_aux \<noteq> new_aux" by (rule sentinels_differ)
  from assms(3) show "world_after E cmd dir (Suc N) w = Some wN" .
  show "\<forall>k<N. (if k = 0 then Some new_aux else aux_after E cmd dir aux k w) \<noteq>
                aux_after E cmd dir aux (Suc k) w"
  proof (intro allI impI)
    fix k assume "k < N"
    show "(if k = 0 then Some new_aux else aux_after E cmd dir aux k w) \<noteq>
                aux_after E cmd dir aux (Suc k) w"
    proof (cases "k = 0")
      case True
      with assms(4) show ?thesis by auto
    next
      case False
      with \<open>k < N\<close> assms(5) show ?thesis by simp
    qed
  qed
  from assms(1,6) show "(if N = 0 then Some new_aux else aux_after E cmd dir aux N w) =
             aux_after E cmd dir aux (Suc N) w"
    by simp
qed

theorem convergence_loop_one_more_pass_witness:
  "(0::nat) < 2 \<and>
   sentinels (mock_env 1) mock_world =
     ((Some ''7'', Some ''77''), mock_world\<lparr>rand_pos := 3\<rparr>) \<and>
   world_after (mock_env 1) [''pdflatex'', ''/t/d77777.tex''] ''/t'' (Suc 2)
       (mock_world\<lparr>rand_pos := 3\<rparr>) =
     Some \<lparr>files = [(''/t/d.tex'', ''template''), (''/t/d77777.aux'', ''x''),
                   (''/t/d77777.pdf'', ''PDF'')],
           toolchain = 3,
           calls = replicate 3 ([''pdflatex'', ''/t/d77777.tex''], ''/t''),
           logged = [DEBUG ''pass'', DEBUG ''pass'', DEBUG ''pass''],
           rand_pos = 3\<rparr> \<and>
   aux_after (mock_env 1) [''pdflatex'', ''/t/d77777.tex''] ''/t'' ''/t/d77777.aux'' 1
       (mock_world\<lparr>rand_pos := 3\<rparr>) = Some (Some []) \<and>
   aux_after (mock_env 1) [''pdflatex'', ''/t/d77777.tex''] ''/t'' ''/t/d77777.aux'' 2
       (mock_world\<lparr>rand_pos := 3\<rparr>) = Some (Some ''x'') \<and>
   aux_after (mock_env 1) [''pdflatex'', ''/t/d77777.tex''] ''/t'' ''/t/d77777.aux'' (Suc 2)
       (mock_world\<lparr>rand_pos := 3\<rparr>) = Some (Some ''x'') \<and>
   aux_loop (mock_env 1) [''pdflatex'', ''/t/d77777.tex''] ''/t'' ''/t/d77777.aux''
       (Some ''7'') (Some ''77'') (mock_world\<lparr>rand_pos := 3\<rparr>) =
     Some (Inr (),
       \<lparr>files = [(''/t/d.tex'', ''template''), (''/t/d77777.aux'', ''x''),
                 (''/t/d77777.pdf'', ''PDF'')],
        toolchain = 3,
        calls = replicate 3 ([''pdflatex'', ''/t/d77777.tex''], ''/t''),
        logged = [DEBUG ''pass'', DEBUG ''pass'', DEBUG ''pass''],
        rand_pos = 3\<rparr>)"
proof -
  let ?w = "mock_world\<lparr>rand_pos := 3\<rparr>"
  let ?W = "\<lparr>files = [(''/t/d.tex'', ''template''), (''/t/d77777.aux'', ''x''),
                   (''/t/d77777.pdf'', ''PDF'')],
           toolchain = 3::nat,
           calls = replicate 3 ([''pdflatex'', ''/t/d77777.tex''], ''/t''),
           logged = [DEBUG ''pass'', DEBUG ''pass'', DEBUG ''pass''],
           rand_pos = 3\<rparr>"
  let ?A = "\<lambda>k. aux_after (mock_env 1) [''pdflatex'', ''/t/d77777.tex''] ''/t''
              ''/t/d77777.aux'' k ?w"
  have n: "(0::nat) < 2" by simp
  have s: "sentinels (mock_env 1) mock_world = ((Some ''7'', Some ''77''), ?w)"
    by code_simp
  have wa: "world_after (mock_env 1) [''pdflatex'', ''/t/d77777.tex''] ''/t'' (Suc 2) ?w = Some ?W"
    by code_simp
  have a1: "?A 1 = Some (Some [])" by code_simp
  have a2: "?A 2 = Some (Some ''x'')" by code_simp
  have a3: "?A (Suc 2) = Some (Some ''x'')" by code_simp
  have a2': "?A (Suc 1) = Some (Some ''x'')" by code_simp
  have f: "?A 1 \<noteq> Some (Some ''77'')" unfolding a1 by simp
  have c: "\<forall>k. 0 < k \<and> k < 2 \<longrightarrow> ?A k \<noteq> ?A (Suc k)"
  proof (intro allI impI)
    fix k :: nat assume "0 < k \<and> k < 2"
    then have k: "k = 1" by arith
    show "?A k \<noteq> ?A (Suc k)"
      unfolding k a1 a2' by simp
  qed
  have e: "?A 2 = ?A (Suc 2)" unfolding a2 a3 by simp
  from convergence_loop_one_more_pass[OF n s wa f c e]
  have l: "aux_loop (mock_env 1) [''pdflatex'', ''/t/d77777.tex''] ''/t'' ''/t/d77777.aux''
       (Some ''7'') (Some ''77'') ?w = Some (Inr (), ?W)"
    by (rule conjunct1)
  show ?thesis
    by (intro conjI n s wa a1 a2 a3 l)
qed

text \<open>
  A compiler whose auxiliary file is empty after every call: the content has settled after
  one call, and the loop calls the compiler twice.
\<close>

theorem constant_aux_two_calls_counterexample:
  "aux_after (mock_env 0) [''pdflatex'', ''/t/d77777.tex''] ''/t'' ''/t/d77777.aux'' 1 mock_world =
     Some (Some []) \<and>
   aux_after (mock_env 0) [''pdflatex'', ''/t/d77777.tex''] ''/t'' ''/t/d77777.aux'' 2 mock_world =
     Some (Some []) \<and>
   aux_after (mock_env 0) [''pdflatex'', ''/t/d77777.tex''] ''/t'' ''/t/d77777.aux'' 3 mock_world =
     Some (Some []) \<and>
   aux_loop (mock_env 0) [''pdflatex'', ''/t/d77777.tex''] ''/t'' ''/t/d77777.aux''
       (Some ''7'') (Some ''77'') mock_world =
     Some (Inr (),
       \<lparr>files = [(''/t/d.tex'', ''template''), (''/t/d77777.aux'', []),
                 (''/t/d77777.pdf'', ''PDF'')],
        toolchain = 2,
        calls = [([''pdflatex'', ''/t/d77777.tex''], ''/t''),
                 ([''pdflatex'', ''/t/d77777.tex''], ''/t'')],
        logged = [DEBUG ''pass'', DEBUG ''pass''],
        rand_pos = 0\<rparr>)"
  by code_simp

text \<open>
  C5: the loop has no bound on its passes. When every pass succeeds and leaves an auxiliary
  content different from the one read before, the loop never ends.
\<close>

theorem convergence_loop_unbounded:
  assumes "\<forall>k. unstable (passes E cmd dir aux k (old0, new0, w))"
  shows "aux_loop E cmd dir aux old0 new0 w = None"
proof (rule ccontr)
  assume "aux_loop E cmd dir aux old0 new0 w \<noteq> None"
  then obtain y where "aux_loop E cmd dir aux old0 new0 w = Some y" by blast
  from aux_loop_diverges[OF this] assms show False by blast
qed

theorem convergence_loop_unbounded_witness:
  "(\<forall>k. unstable (passes restless_env [''pdflatex'', ''/t/d77777.tex''] ''/t'' ''/t/d77777.aux'' k
      (Some ''7'', Some ''77'', mock_world))) \<and>
   aux_loop restless_env [''pdflatex'', ''/t/d77777.tex''] ''/t'' ''/t/d77777.aux''
      (Some ''7'') (Some ''77'') mock_world = None"
proof -
  have h: "\<forall>k. unstable (passes restless_env [''pdflatex'', ''/t/d77777.tex''] ''/t''
      ''/t/d77777.aux'' k (Some ''7'', Some ''77'', mock_world))"
    by (intro allI restless_unstable) (simp_all add: mock_world_def)
  from h convergence_loop_unbounded[OF h] show ?thesis by (rule conjI)
qed

subsection \<open>Cleanup and failure\<close>

text \<open>
  C2: the cleanup removes the files that \<open>list_filepathes_with_predicate\<close> returns for the
  directory \<open>os.path.dirname\<close> of the temporary source and the stem of the temporary
  source. For a template root written \<open>/t//\<close> the directory is \<open>/t\<close> and the stem is
  \<open>/t//d77777\<close>: no joined path of the directory starts with the stem, nothing is removed,
  and the temporary source and the auxiliary file are still there when \<open>run_latex\<close> returns,
  after a build that succeeds and after one whose compiler fails.
\<close>

theorem cleanup_misses_doubled_separator:
  "generate_path_variables (mock_env 1) slash_build ''/o/d.pdf'' slash_world =
     (\<lparr>path_template_random = ''/t//d77777.tex'',
       path_template_dir = ''/t'',
       path_template_random_no_ext = ''/t//d77777'',
       path_template_random_aux = ''/t//d77777.aux'',
       ext_outfile = ''.pdf'',
       path_outfile_initial = ''/t//d77777.pdf''\<rparr>,
      slash_world\<lparr>rand_pos := 5\<rparr>) \<and>
   run_latex (mock_env 1) slash_build [''pdflatex''] ''/o/d.pdf'' slash_world =
     Some (Inr ''Hello'',
       \<lparr>files = [(''/t//d.tex'', ''template''), (''/t//d77777.tex'', ''Hello''),
                 (''/t//d77777.aux'', ''x''), (''/o/d.pdf'', ''PDF'')],
        toolchain = 3,
        calls = [([''pdflatex'', ''/t//d77777.tex''], ''/t''),
                 ([''pdflatex'', ''/t//d77777.tex''], ''/t''),
                 ([''pdflatex'', ''/t//d77777.tex''], ''/t'')],
        logged = [DEBUG ''pass'', DEBUG ''pass'', DEBUG ''pass'',
                  INFO ''Built /o/d.pdf from /t//d.tex''],
        rand_pos = 8\<rparr>) \<and>
   run_latex (mock_env 1) slash_build [''false''] ''/o/d.pdf'' slash_world =
     Some (Inr ''Hello'',
       \<lparr>files = [(''/t//d.tex'', ''template''), (''/t//d77777.tex'', ''Hello'')],
        toolchain = 0,
        calls = [([''false'', ''/t//d77777.tex''], ''/t'')],
        logged = [EXCEPTION ''Failed during latex build'' CompilerInvocationError],
        rand_pos = 8\<rparr>)"
  by code_simp

text \<open>
  C1: when the \<open>try\<close> body raises (a compiler call fails or cannot be started, or the
  initial output is missing when it is to be moved), the exception is logged and the
  cleanup runs. The caller is not told: \<open>run_latex\<close> raises nothing and returns the rendered
  text, as it does after a successful build.
\<close>

theorem body_failure_logged_cleaned_not_raised:
  assumes "get_text_template E self = Inr text_template"
      and "generate_path_variables E self path_outfile w = (pv, w0)"
      and "special_case_ms_word self cmd_wo_infile (path_outfile_initial pv) = Inr (cmd_docx, cmd_a)"
      and "try_body E self pv text_template cmd_docx cmd_a path_outfile w0 = Some (Inl e, w1)"
  shows "\<exists>w2. run_latex E self cmd_wo_infile path_outfile w = Some (Inr text_template, w2) \<and>
              logged w2 = logged w1 @ [EXCEPTION ''Failed during latex build'' e] \<and>
              (\<forall>p. stem_file pv p \<longrightarrow> map_of (files w2) p = None)"
  unfolding run_latex_body[OF assms(1,2,3)]
  by (simp add: assms(4) except_clause_def LOGGER_exception_def stem_files_filtered)

theorem body_failure_logged_cleaned_not_raised_witness:
  "get_text_template (mock_env 1) mock_build = Inr ''Hello'' \<and>
   generate_path_variables (mock_env 1) mock_build ''/o/d.pdf'' mock_world =
     (mock_paths, mock_world\<lparr>rand_pos := 5\<rparr>) \<and>
   special_case_ms_word mock_build [''false''] (path_outfile_initial mock_paths) =
     Inr (None, [''false'']) \<and>
   try_body (mock_env 1) mock_build mock_paths ''Hello'' None [''false''] ''/o/d.pdf''
       (mock_world\<lparr>rand_pos := 5\<rparr>) =
     Some (Inl CompilerInvocationError,
       \<lparr>files = [(''/t/d.tex'', ''template''), (''/t/d77777.tex'', ''Hello'')],
        toolchain = 0, calls = [([''false'', ''/t/d77777.tex''], ''/t'')],
        logged = [], rand_pos = 8\<rparr>) \<and>
   stem_file mock_paths ''/t/d77777.tex'' \<and>
   (\<exists>w2. run_latex (mock_env 1) mock_build [''false''] ''/o/d.pdf'' mock_world =
           Some (Inr ''Hello'', w2) \<and>
         logged w2 = [EXCEPTION ''Failed during latex build'' CompilerInvocationError] \<and>
         map_of (files w2) ''/t/d77777.tex'' = None)"
proof -
  let ?W1 = "\<lparr>files = [(''/t/d.tex'', ''template''), (''/t/d77777.tex'', ''Hello'')],
        toolchain = 0::nat, calls = [([''false'', ''/t/d77777.tex''], ''/t'')],
        logged = [], rand_pos = 8\<rparr>"
  have g: "generate_path_variables (mock_env 1) mock_build ''/o/d.pdf'' mock_world =
             (mock_paths, mock_world\<lparr>rand_pos := 5\<rparr>)"
    by code_simp
  have sc: "special_case_ms_word mock_build [''false''] (path_outfile_initial mock_paths) =
              Inr (None, [''false''])"
    by code_simp
  have tb: "try_body (mock_env 1) mock_build mock_paths ''Hello'' None [''false''] ''/o/d.pdf''
              (mock_world\<lparr>rand_pos := 5\<rparr>) = Some (Inl CompilerInvocationError, ?W1)"
    by code_simp
  have f: "stem_file mock_paths ''/t/d77777.tex''"
    by code_simp
  from body_failure_logged_cleaned_not_raised[OF mock_renders g sc tb] obtain w2 where
    r: "run_latex (mock_env 1) mock_build [''false''] ''/o/d.pdf'' mock_world =
          Some (Inr ''Hello'', w2)" and
    lg: "logged w2 = logged ?W1 @ [EXCEPTION ''Failed during latex build'' CompilerInvocationError]"
      and
    cl: "\<forall>p. stem_file mock_paths p \<longrightarrow> map_of (files w2) p = None"
    by blast
  from cl f have "map_of (files w2) ''/t/d77777.tex'' = None" by blast
  moreover from lg have
    "logged w2 = [EXCEPTION ''Failed during latex build'' CompilerInvocationError]" by simp
  ultimately have "\<exists>w2. run_latex (mock_env 1) mock_build [''false''] ''/o/d.pdf'' mock_world =
           Some (Inr ''Hello'', w2) \<and>
         logged w2 = [EXCEPTION ''Failed during latex build'' CompilerInvocationError] \<and>
         map_of (files w2) ''/t/d77777.tex'' = None"
    using r by blast
  with mock_renders[of 1] g sc tb f show ?thesis by (intro conjI)
qed

text \<open>
  A build whose compiler exits with status 1: the body raises, and \<open>run_latex\<close> returns the
  same value as for a build that succeeds.
\<close>

theorem failure_not_reported_counterexample:
  "try_body (mock_env 1) mock_build mock_paths ''Hello'' None [''false''] ''/o/d.pdf''
       (mock_world\<lparr>rand_pos := 5\<rparr>) =
     Some (Inl CompilerInvocationError,
       \<lparr>files = [(''/t/d.tex'', ''template''), (''/t/d77777.tex'', ''Hello'')],
        toolchain = 0, calls = [([''false'', ''/t/d77777.tex''], ''/t'')],
        logged = [], rand_pos = 8\<rparr>) \<and>
   run_latex (mock_env 1) mock_build [''false''] ''/o/d.pdf'' mock_world =
     Some (Inr ''Hello'',
       \<lparr>files = [(''/t/d.tex'', ''template'')], toolchain = 0,
        calls = [([''false'', ''/t/d77777.tex''], ''/t'')],
        logged = [EXCEPTION ''Failed during latex build'' CompilerInvocationError],
        rand_pos = 8\<rparr>) \<and>
   fst (the (run_latex (mock_env 1) mock_build [''false''] ''/o/d.pdf'' mock_world)) =
   fst (the (run_latex (mock_env 1) mock_build [''pdflatex''] ''/o/d.pdf'' mock_world))"
  by code_simp

text \<open>
  C9: when the template renders, the command list is not empty and the convergence loop
  ends, normally or with an exception, \<open>run_latex\<close> returns the rendered text: whatever the
  body raises is caught. An empty command list raises IndexError before the \<open>try\<close>
  statement, and a loop that never ends leaves \<open>run_latex\<close> without a value.
\<close>

theorem run_latex_returns_text_when_loop_ends:
  assumes "get_text_template E self = Inr text_template"
      and "generate_path_variables E self path_outfile w = (pv, w0)"
      and "special_case_ms_word self cmd_wo_infile (path_outfile_initial pv) = Inr (cmd_docx, cmd_a)"
      and "sentinels E (write_file (path_template_random pv) text_template w0) =
             ((old_aux, new_aux), wl)"
      and "aux_loop E (cmd_a @ [path_template_random pv]) (path_template_dir pv)
             (path_template_random_aux pv) old_aux new_aux wl = Some lr"
  shows "\<exists>w2. run_latex E self cmd_wo_infile path_outfile w = Some (Inr text_template, w2)"
proof -
  from try_body_ends[OF assms(4,5)] obtain r w1 where
    "try_body E self pv text_template cmd_docx cmd_a path_outfile w0 = Some (r, w1)"
    by blast
  then show ?thesis
    unfolding run_latex_body[OF assms(1,2,3)] by simp
qed

theorem run_latex_returns_text_when_loop_ends_witness:
  "get_text_template (mock_env 1) mock_build = Inr ''Hello'' \<and>
   generate_path_variables (mock_env 1) mock_build ''/o/d.pdf'' mock_world =
     (mock_paths, mock_world\<lparr>rand_pos := 5\<rparr>) \<and>
   special_case_ms_word mock_build [''false''] (path_outfile_initial mock_paths) =
     Inr (None, [''false'']) \<and>
   sentinels (mock_env 1)
       (write_file (path_template_random mock_paths) ''Hello'' (mock_world\<lparr>rand_pos := 5\<rparr>)) =
     ((Some ''7'', Some ''77''),
      \<lparr>files = [(''/t/d.tex'', ''template''), (''/t/d77777.tex'', ''Hello'')],
       toolchain = 0, calls = [], logged = [], rand_pos = 8\<rparr>) \<and>
   aux_loop (mock_env 1) ([''false''] @ [path_template_random mock_paths])
       (path_template_dir mock_paths) (path_template_random_aux mock_paths)
       (Some ''7'') (Some ''77'')
       \<lparr>files = [(''/t/d.tex'', ''template''), (''/t/d77777.tex'', ''Hello'')],
        toolchain = 0, calls = [], logged = [], rand_pos = 8\<rparr> =
     Some (Inl CompilerInvocationError,
       \<lparr>files = [(''/t/d.tex'', ''template''), (''/t/d77777.tex'', ''Hello'')],
        toolchain = 0, calls = [([''false'', ''/t/d77777.tex''], ''/t'')],
        logged = [], rand_pos = 8\<rparr>) \<and>
   (\<exists>w2. run_latex (mock_env 1) mock_build [''false''] ''/o/d.pdf'' mock_world =
           Some (Inr ''Hello'', w2))"
proof -
  let ?WL = "\<lparr>files = [(''/t/d.tex'', ''template''), (''/t/d77777.tex'', ''Hello'')],
       toolchain = 0::nat, calls = [], logged = [], rand_pos = 8\<rparr>"
  let ?W1 = "\<lparr>files = [(''/t/d.tex'', ''template''), (''/t/d77777.tex'', ''Hello'')],
        toolchain = 0::nat, calls = [([''false'', ''/t/d77777.tex''], ''/t'')],
        logged = [], rand_pos = 8\<rparr>"
  have g: "generate_path_variables (mock_env 1) mock_build ''/o/d.pdf'' mock_world =
             (mock_paths, mock_world\<lparr>rand_pos := 5\<rparr>)"
    by code_simp
  have sc: "special_case_ms_word mock_build [''false''] (path_outfile_initial mock_paths) =
              Inr (None, [''false''])"
    by code_simp
  have s: "sentinels (mock_env 1)
       (write_file (path_template_random mock_paths) ''Hello'' (mock_world\<lparr>rand_pos := 5\<rparr>)) =
     ((Some ''7'', Some ''77''), ?WL)"
    by code_simp
  have l: "aux_loop (mock_env 1) ([''false''] @ [path_template_random mock_paths])
       (path_template_dir mock_paths) (path_template_random_aux mock_paths)
       (Some ''7'') (Some ''77'') ?WL = Some (Inl CompilerInvocationError, ?W1)"
    by code_simp
  from run_latex_returns_text_when_loop_ends[OF mock_renders g sc s l] mock_renders[of 1] g sc s l
  show ?thesis by (intro conjI)
qed

text \<open>
  The template renders in both runs: the first has an empty command list and raises, the
  second has a toolchain that never settles and does not return.
\<close>

theorem run_latex_can_raise_or_hang_counterexample:
  "get_text_template (mock_env 1) mock_build = Inr ''Hello'' \<and>
   run_latex (mock_env 1) mock_build [] ''/o/d.pdf'' mock_world =
     Some (Inl IndexError, mock_world\<lparr>rand_pos := 5\<rparr>) \<and>
   get_text_template restless_env mock_build = Inr ''Hello'' \<and>
   run_latex restless_env mock_build [''pdflatex''] ''/o/d.pdf'' mock_world = None"
proof -
  have "run_latex (mock_env 1) mock_build [] ''/o/d.pdf'' mock_world =
     Some (Inl IndexError, mock_world\<lparr>rand_pos := 5\<rparr>)"
    by code_simp
  with mock_renders[of 1] restless_renders restless_run_never_returns
  show ?thesis by (intro conjI)
qed

subsection \<open>The artifact\<close>

text \<open>
  C8: in a build whose \<open>try\<close> body ends normally, the initial output path is the stem of
  the temporary source followed by the extension of the requested path; the file found
  there after the compiler stages is moved to the requested path: afterwards the
  requested path holds that content, the initial path holds nothing (unless the two paths
  are one) and every other path is untouched. \<open>run_latex\<close> then returns, and the artifact
  is still at the requested path unless that path is itself one of the run's temporary
  paths, which the cleanup removes.
\<close>

theorem artifact_moved_to_outfile:
  assumes "get_text_template E self = Inr text_template"
      and "generate_path_variables E self path_outfile w = (pv, w0)"
      and "special_case_ms_word self cmd_wo_infile (path_outfile_initial pv) = Inr (cmd_docx, cmd_a)"
      and "try_body E self pv text_template cmd_docx cmd_a path_outfile w0 = Some (Inr (), w1)"
  shows "path_template_random_no_ext pv = fst (splitext (path_template_random pv)) \<and>
         path_outfile_initial pv = path_template_random_no_ext pv @ snd (splitext path_outfile) \<and>
         (\<exists>old_aux new_aux wl w3 w4 content w2.
            sentinels E (write_file (path_template_random pv) text_template w0) =
              ((old_aux, new_aux), wl) \<and>
            aux_loop E (cmd_a @ [path_template_random pv]) (path_template_dir pv)
              (path_template_random_aux pv) old_aux new_aux wl = Some (Inr (), w3) \<and>
            ms_word_stage E cmd_docx pv w3 = (Inr (), w4) \<and>
            map_of (files w4) (path_outfile_initial pv) = Some content \<and>
            (\<forall>p. map_of (files w1) p =
                  (if p = path_outfile then Some content
                   else if p = path_outfile_initial pv then None
                   else map_of (files w4) p)) \<and>
            run_latex E self cmd_wo_infile path_outfile w = Some (Inr text_template, w2) \<and>
            (\<not> stem_file pv path_outfile \<longrightarrow> map_of (files w2) path_outfile = Some content))"
proof (intro conjI)
  from assms(2) show "path_template_random_no_ext pv = fst (splitext (path_template_random pv))"
    by (auto simp: generate_path_variables_def Let_def split: prod.splits)
  from assms(2) show
    "path_outfile_initial pv = path_template_random_no_ext pv @ snd (splitext path_outfile)"
    by (auto simp: generate_path_variables_def Let_def split: prod.splits)
  from try_body_success[OF assms(4)] obtain old_aux new_aux wl w3 w4 w5 where
    s: "sentinels E (write_file (path_template_random pv) text_template w0) =
          ((old_aux, new_aux), wl)" and
    l: "aux_loop E (cmd_a @ [path_template_random pv]) (path_template_dir pv)
          (path_template_random_aux pv) old_aux new_aux wl = Some (Inr (), w3)" and
    m: "ms_word_stage E cmd_docx pv w3 = (Inr (), w4)" and
    v: "shutil_move (path_outfile_initial pv) path_outfile w4 = (Inr (), w5)" and
    w1: "w1 = LOGGER_info (''Built '' @ path_outfile @ '' from '' @ path_template self) w5"
    by blast
  from shutil_move_files[OF v] obtain content where
    c: "map_of (files w4) (path_outfile_initial pv) = Some content" and
    f5: "\<forall>p. map_of (files w5) p =
                 (if p = path_outfile then Some content
                  else if p = path_outfile_initial pv then None
                  else map_of (files w4) p)"
    by blast
  have f1: "files w1 = files w5" by (simp add: w1 LOGGER_info_def)
  define w2 where "w2 = (except_clause (Inr ()) w1)
                    \<lparr>files := filter (\<lambda>kv. \<not> stem_file pv (fst kv)) (files w1)\<rparr>"
  have r: "run_latex E self cmd_wo_infile path_outfile w = Some (Inr text_template, w2)"
    unfolding run_latex_body[OF assms(1,2,3)] by (simp add: assms(4) w2_def)
  have k: "\<not> stem_file pv path_outfile \<longrightarrow> map_of (files w2) path_outfile = Some content"
  proof
    assume "\<not> stem_file pv path_outfile"
    then have "map_of (filter (\<lambda>kv. \<not> stem_file pv (fst kv)) (files w5)) path_outfile =
               map_of (files w5) path_outfile"
      by (rule map_of_filter_keep[where P = "\<lambda>k. \<not> stem_file pv k"])
    with f5 show "map_of (files w2) path_outfile = Some content"
      by (simp add: w2_def f1)
  qed
  from s l m c f5 r k show "\<exists>old_aux new_aux wl w3 w4 content w2.
            sentinels E (write_file (path_template_random pv) text_template w0) =
              ((old_aux, new_aux), wl) \<and>
            aux_loop E (cmd_a @ [path_template_random pv]) (path_template_dir pv)
              (path_template_random_aux pv) old_aux new_aux wl = Some (Inr (), w3) \<and>
            ms_word_stage E cmd_docx pv w3 = (Inr (), w4) \<and>
            map_of (files w4) (path_outfile_initial pv) = Some content \<and>
            (\<forall>p. map_of (files w1) p =
                  (if p = path_outfile then Some content
                   else if p = path_outfile_initial pv then None
                   else map_of (files w4) p)) \<and>
            run_latex E self cmd_wo_infile path_outfile w = Some (Inr text_template, w2) \<and>
            (\<not> stem_file pv path_outfile \<longrightarrow> map_of (files w2) path_outfile = Some content)"
    unfolding f1 by (intro exI conjI)
qed


theorem artifact_moved_to_outfile_witness:
  "get_text_template (mock_env 1) mock_build = Inr ''Hello'' \<and>
   generate_path_variables (mock_env 1) mock_build ''/o/d.pdf'' mock_world =
     (mock_paths, mock_world\<lparr>rand_pos := 5\<rparr>) \<and>
   special_case_ms_word mock_build [''pdflatex''] (path_outfile_initial mock_paths) =
     Inr (None, [''pdflatex'']) \<and>
   try_body (mock_env 1) mock_build mock_paths ''Hello'' None [''pdflatex''] ''/o/d.pdf''
       (mock_world\<lparr>rand_pos := 5\<rparr>) =
     Some (Inr (),
       \<lparr>files = [(''/t/d.tex'', ''template''), (''/t/d77777.tex'', ''Hello''),
                 (''/t/d77777.aux'', ''x''), (''/o/d.pdf'', ''PDF'')],
        toolchain = 3,
        calls = replicate 3 ([''pdflatex'', ''/t/d77777.tex''], ''/t''),
        logged = [DEBUG ''pass'', DEBUG ''pass'', DEBUG ''pass'',
                  INFO ''Built /o/d.pdf from /t/d.tex''],
        rand_pos = 8\<rparr>) \<and>
   \<not> stem_file mock_paths ''/o/d.pdf'' \<and>
   path_outfile_initial mock_paths = path_template_random_no_ext mock_paths @ ''.pdf'' \<and>
   (\<exists>w2. run_latex (mock_env 1) mock_build [''pdflatex''] ''/o/d.pdf'' mock_world =
           Some (Inr ''Hello'', w2) \<and>
         map_of (files w2) ''/o/d.pdf'' = Some ''PDF'')"
proof -
  let ?W1 = "\<lparr>files = [(''/t/d.tex'', ''template''), (''/t/d77777.tex'', ''Hello''),
                 (''/t/d77777.aux'', ''x''), (''/o/d.pdf'', ''PDF'')],
        toolchain = 3::nat,
        calls = replicate 3 ([''pdflatex'', ''/t/d77777.tex''], ''/t''),
        logged = [DEBUG ''pass'', DEBUG ''pass'', DEBUG ''pass'',
                  INFO ''Built /o/d.pdf from /t/d.tex''],
        rand_pos = 8\<rparr>"
  have g: "generate_path_variables (mock_env 1) mock_build ''/o/d.pdf'' mock_world =
             (mock_paths, mock_world\<lparr>rand_pos := 5\<rparr>)"
    by code_simp
  have sc: "special_case_ms_word mock_build [''pdflatex''] (path_outfile_initial mock_paths) =
              Inr (None, [''pdflatex''])"
    by code_simp
  have tb: "try_body (mock_env 1) mock_build mock_paths ''Hello'' None [''pdflatex''] ''/o/d.pdf''
              (mock_world\<lparr>rand_pos := 5\<rparr>) = Some (Inr (), ?W1)"
    by code_simp
  have ns: "\<not> stem_file mock_paths ''/o/d.pdf''"
    by code_simp
  have e: "snd (splitext ''/o/d.pdf'') = ''.pdf''"
    by code_simp
  note T = artifact_moved_to_outfile[OF mock_renders g sc tb]
  from T have i: "path_outfile_initial mock_paths = path_template_random_no_ext mock_paths @ ''.pdf''"
    by (simp add: e)
  have "\<exists>w2. run_latex (mock_env 1) mock_build [''pdflatex''] ''/o/d.pdf'' mock_world =
           Some (Inr ''Hello'', w2) \<and>
         map_of (files w2) ''/o/d.pdf'' = Some ''PDF''"
    using T[THEN conjunct2, THEN conjunct2] ns
    apply (elim exE conjE)
    subgoal for old_aux new_aux wl w3 w4 content w2
      apply (rule exI[of _ w2])
      apply (drule spec[of _ "''/o/d.pdf''"])
      apply simp
      done
    done
  with mock_renders[of 1] g sc tb ns i show ?thesis by (intro conjI)
qed

subsection \<open>The two stages of a DOCX build\<close>






end
